theory Spec2Isabelle
  imports Complex_Main
begin

section \<open>One Word: providers, experiment runner and result aggregation\<close>

text \<open>
  A shallow embedding of \<^verbatim>\<open>src/lib/providers.ts\<close>, \<^verbatim>\<open>src/lib/runner.ts\<close> and the
  experiment construction of \<^verbatim>\<open>src/App.tsx\<close>.

  Conventions. A JavaScript \<^verbatim>\<open>number\<close> is a \<^typ>\<open>real\<close> (exact arithmetic; rounding of
  IEEE doubles is not modelled), except for loop counters and counts, which are
  \<^typ>\<open>nat\<close>. Identifiers and words are \<^typ>\<open>string\<close>. An exception is the \<open>Inl\<close> branch of a
  sum. Everything the code obtains from outside (provider replies, storage outcomes, the
  moment an abort request arrives, the clock) is an explicit argument.
\<close>

subsection \<open>Data types (\<^verbatim>\<open>lib/types.ts\<close>)\<close>

text \<open>The display-only fields \<^verbatim>\<open>icon\<close>, \<^verbatim>\<open>accentColor\<close> and \<^verbatim>\<open>baseUrl\<close> of
  \<^verbatim>\<open>Provider\<close> are left out.\<close>

record Model =
  m_id :: string
  m_providerId :: string
  m_name :: string
  m_generation :: string
  m_inputCostPer1k :: real
  m_outputCostPer1k :: real

record Provider =
  p_id :: string
  p_name :: string
  p_models :: "Model list"

record CostParams =
  cp_model :: string
  cp_inputTokens :: real
  cp_outputTokens :: real

text \<open>One entry of a provider's \<^verbatim>\<open>modelPricing\<close> table: \<^verbatim>\<open>{ input, output }\<close>.\<close>

record Pricing =
  pr_input :: real
  pr_output :: real

subsection \<open>Static provider data (\<^verbatim>\<open>PROVIDER_DATA\<close>)\<close>

definition mkModel :: "string \<Rightarrow> string \<Rightarrow> string \<Rightarrow> string \<Rightarrow> real \<Rightarrow> real \<Rightarrow> Model" where
  "mkModel i p n g ci co =
     \<lparr>m_id = i, m_providerId = p, m_name = n, m_generation = g,
      m_inputCostPer1k = ci, m_outputCostPer1k = co\<rparr>"

definition anthropic_models :: "Model list" where
  "anthropic_models =
    [mkModel ''claude-opus-4-5-20251101'' ''anthropic'' ''Claude 4.5 Opus'' ''4.5'' (5/1000) (25/1000),
     mkModel ''claude-sonnet-4-5-20250929'' ''anthropic'' ''Claude 4.5 Sonnet'' ''4.5'' (3/1000) (15/1000),
     mkModel ''claude-haiku-4-5-20251001'' ''anthropic'' ''Claude 4.5 Haiku'' ''4.5'' (1/1000) (5/1000),
     mkModel ''claude-opus-4-1-20250805'' ''anthropic'' ''Claude 4.1 Opus'' ''4.1'' (15/1000) (75/1000),
     mkModel ''claude-opus-4-20250514'' ''anthropic'' ''Claude 4 Opus'' ''4'' (15/1000) (75/1000),
     mkModel ''claude-sonnet-4-20250514'' ''anthropic'' ''Claude 4 Sonnet'' ''4'' (3/1000) (15/1000),
     mkModel ''claude-3-7-sonnet-20250219'' ''anthropic'' ''Claude 3.7 Sonnet'' ''3.7'' (3/1000) (15/1000),
     mkModel ''claude-3-5-haiku-20241022'' ''anthropic'' ''Claude 3.5 Haiku'' ''3.5'' (1/1000) (5/1000),
     mkModel ''claude-3-opus-20240229'' ''anthropic'' ''Claude 3 Opus'' ''3'' (15/1000) (75/1000),
     mkModel ''claude-3-haiku-20240307'' ''anthropic'' ''Claude 3 Haiku'' ''3'' (25/100000) (125/100000)]"

definition openai_models :: "Model list" where
  "openai_models =
    [mkModel ''o1'' ''openai'' ''o1'' ''o1'' (15/1000) (6/100),
     mkModel ''o1-mini'' ''openai'' ''o1 Mini'' ''o1'' (3/1000) (12/1000),
     mkModel ''o3-mini'' ''openai'' ''o3 Mini'' ''o3'' (11/10000) (44/10000),
     mkModel ''gpt-4o'' ''openai'' ''GPT-4o'' ''4o'' (25/10000) (1/100),
     mkModel ''gpt-4o-mini'' ''openai'' ''GPT-4o Mini'' ''4o'' (15/100000) (6/10000),
     mkModel ''gpt-4-turbo'' ''openai'' ''GPT-4 Turbo'' ''4'' (1/100) (3/100)]"

definition kimi_models :: "Model list" where
  "kimi_models =
    [mkModel ''moonshot-v1-8k'' ''kimi'' ''Moonshot v1 8K'' ''1'' (1/1000) (2/1000),
     mkModel ''moonshot-v1-32k'' ''kimi'' ''Moonshot v1 32K'' ''1'' (2/1000) (4/1000),
     mkModel ''moonshot-v1-128k'' ''kimi'' ''Moonshot v1 128K'' ''1'' (6/1000) (12/1000)]"

definition PROVIDER_DATA :: "Provider list" where
  "PROVIDER_DATA =
    [\<lparr>p_id = ''anthropic'', p_name = ''Anthropic'', p_models = anthropic_models\<rparr>,
     \<lparr>p_id = ''openai'', p_name = ''OpenAI'', p_models = openai_models\<rparr>,
     \<lparr>p_id = ''kimi'', p_name = ''Kimi'', p_models = kimi_models\<rparr>]"

text \<open>\<^verbatim>\<open>PROVIDER_DATA.flatMap(p => p.models)\<close>\<close>

definition allModels :: "Model list" where
  "allModels = concat (map p_models PROVIDER_DATA)"

subsection \<open>Cost estimation (\<^verbatim>\<open>estimateCost\<close> of the three providers and of the registry)\<close>

definition anthropic_modelPricing :: "(string \<times> Pricing) list" where
  "anthropic_modelPricing =
    [(''claude-opus-4-5-20251101'', \<lparr>pr_input = 5/1000, pr_output = 25/1000\<rparr>),
     (''claude-sonnet-4-5-20250929'', \<lparr>pr_input = 3/1000, pr_output = 15/1000\<rparr>),
     (''claude-haiku-4-5-20251001'', \<lparr>pr_input = 1/1000, pr_output = 5/1000\<rparr>),
     (''claude-opus-4-1-20250805'', \<lparr>pr_input = 15/1000, pr_output = 75/1000\<rparr>),
     (''claude-opus-4-20250514'', \<lparr>pr_input = 15/1000, pr_output = 75/1000\<rparr>),
     (''claude-sonnet-4-20250514'', \<lparr>pr_input = 3/1000, pr_output = 15/1000\<rparr>),
     (''claude-3-7-sonnet-20250219'', \<lparr>pr_input = 3/1000, pr_output = 15/1000\<rparr>),
     (''claude-3-5-haiku-20241022'', \<lparr>pr_input = 1/1000, pr_output = 5/1000\<rparr>),
     (''claude-3-opus-20240229'', \<lparr>pr_input = 15/1000, pr_output = 75/1000\<rparr>),
     (''claude-3-haiku-20240307'', \<lparr>pr_input = 25/100000, pr_output = 125/100000\<rparr>)]"

definition openai_modelPricing :: "(string \<times> Pricing) list" where
  "openai_modelPricing =
    [(''gpt-4o'', \<lparr>pr_input = 25/10000, pr_output = 1/100\<rparr>),
     (''gpt-4o-mini'', \<lparr>pr_input = 15/100000, pr_output = 6/10000\<rparr>),
     (''gpt-4-turbo'', \<lparr>pr_input = 1/100, pr_output = 3/100\<rparr>)]"

definition kimi_modelPricing :: "(string \<times> Pricing) list" where
  "kimi_modelPricing =
    [(''moonshot-v1-8k'', \<lparr>pr_input = 1/1000, pr_output = 2/1000\<rparr>),
     (''moonshot-v1-32k'', \<lparr>pr_input = 2/1000, pr_output = 4/1000\<rparr>),
     (''moonshot-v1-128k'', \<lparr>pr_input = 5/1000, pr_output = 1/100\<rparr>)]"

text \<open>The body shared by the three \<^verbatim>\<open>estimateCost\<close> methods: look the model up in the
  provider's own table; an unknown model costs \<open>0\<close>.\<close>

definition costFrom :: "(string \<times> Pricing) list \<Rightarrow> CostParams \<Rightarrow> real" where
  "costFrom modelPricing params =
     (case map_of modelPricing (cp_model params) of
        None \<Rightarrow> 0
      | Some pricing \<Rightarrow>
          (cp_inputTokens params / 1000) * pr_input pricing
        + (cp_outputTokens params / 1000) * pr_output pricing)"

text \<open>The registry holds one provider object per id; \<^verbatim>\<open>getProvider\<close> returns the
  pricing table of the registered provider, \<^verbatim>\<open>undefined\<close> for any other id.\<close>

definition getProvider :: "string \<Rightarrow> (string \<times> Pricing) list option" where
  "getProvider providerId =
     map_of [(''anthropic'', anthropic_modelPricing),
             (''openai'', openai_modelPricing),
             (''kimi'', kimi_modelPricing)] providerId"

definition estimateCost :: "string \<Rightarrow> CostParams \<Rightarrow> real" where
  "estimateCost providerId params =
     (case getProvider providerId of
        None \<Rightarrow> 0
      | Some modelPricing \<Rightarrow> costFrom modelPricing params)"

text \<open>The prices \<^verbatim>\<open>estimateCost\<close> uses for a model of \<^verbatim>\<open>PROVIDER_DATA\<close>, if it has any.\<close>

definition providerPricing :: "Model \<Rightarrow> Pricing option" where
  "providerPricing m =
     (case getProvider (m_providerId m) of
        None \<Rightarrow> None
      | Some modelPricing \<Rightarrow> map_of modelPricing (m_id m))"

definition pricesAgree :: "Model \<Rightarrow> bool" where
  "pricesAgree m =
     (providerPricing m =
        Some \<lparr>pr_input = m_inputCostPer1k m, pr_output = m_outputCostPer1k m\<rparr>)"

subsection \<open>Experiments, samples and results (\<^verbatim>\<open>lib/types.ts\<close>)\<close>

text \<open>Timestamps (\<^verbatim>\<open>createdAt\<close>, \<^verbatim>\<open>startedAt\<close>, \<^verbatim>\<open>completedAt\<close>, \<^verbatim>\<open>timestamp\<close>), the
  clock-derived \<^verbatim>\<open>latencyMs\<close> and \<^verbatim>\<open>estimatedTimeRemaining\<close> and the sample's generated
  \<^verbatim>\<open>id\<close> are left out: no operation below reads them.\<close>

record ExperimentConfig =
  c_temperature :: real
  c_topK :: real

datatype Status = pending | running | completed | failed | cancelled

record Experiment =
  e_id :: string
  e_stimulus :: string
  e_selectedModels :: "string list"
  e_configs :: "ExperimentConfig list"
  e_samplesPerConfig :: nat
  e_estimatedCost :: real
  e_actualCost :: "real option"
  e_totalCalls :: nat
  e_status :: Status
  e_progress :: "real option"

record Sample =
  s_experimentId :: string
  s_modelId :: string
  s_temperature :: real
  s_topK :: real
  s_word :: string
  s_cost :: real

record WordFrequency =
  wf_word :: string
  wf_count :: nat
  wf_percentage :: real

record ModelResult =
  mr_modelId :: string
  mr_config :: ExperimentConfig
  mr_words :: "WordFrequency list"
  mr_totalSamples :: nat
  mr_uniqueWords :: nat

text \<open>\<^verbatim>\<open>byTemperature\<close> is an object keyed by temperature; it is kept as the list of its
  entries in the order they are written.\<close>

record ExperimentResults =
  r_experimentId :: string
  r_totalSamples :: nat
  r_uniqueWords :: nat
  r_topWords :: "WordFrequency list"
  r_entropy :: real
  r_byModel :: "ModelResult list"
  r_byTemperature :: "(real \<times> WordFrequency list) list"

record RunProgress =
  rp_totalCalls :: nat
  rp_completedCalls :: nat
  rp_currentModel :: string
  rp_currentConfig :: ExperimentConfig
  rp_runningCost :: real
  rp_recentWords :: "string list"

text \<open>\<^verbatim>\<open>RunningExperiment\<close>; \<open>re_aborted\<close> is \<^verbatim>\<open>abortController.signal.aborted\<close>.\<close>

record RunningExperiment =
  re_experiment :: Experiment
  re_aborted :: bool
  re_progress :: RunProgress
  re_samples :: "Sample list"

subsection \<open>Result aggregation (\<^verbatim>\<open>ExperimentRunner.generateResults\<close>)\<close>

text \<open>A JavaScript \<^verbatim>\<open>Map\<close> keeps its keys in insertion order: it is an association list
  in which a key that is set again keeps its place and a new key goes to the end.
  \<open>countWord\<close> is \<^verbatim>\<open>m.set(word, (m.get(word) || 0) + 1)\<close>.\<close>

fun countWord :: "string \<Rightarrow> (string \<times> nat) list \<Rightarrow> (string \<times> nat) list" where
  "countWord w [] = [(w, 1)]"
| "countWord w ((k, c) # rest) =
     (if k = w then (k, c + 1) # rest else (k, c) # countWord w rest)"

definition wordCounts :: "Sample list \<Rightarrow> (string \<times> nat) list" where
  "wordCounts ss = foldl (\<lambda>m s. countWord (s_word s) m) [] ss"

text \<open>\<^verbatim>\<open>entries.map(...).sort((a, b) => b.count - a.count)\<close>: the sort is stable and
  descending in the count, so it is a stable sort on the negated count. \<open>totalSamples\<close> is the
  length of the sample list the counts were taken from.\<close>

definition frequencies :: "(string \<times> nat) list \<Rightarrow> nat \<Rightarrow> WordFrequency list" where
  "frequencies counts totalSamples =
     sort_key (\<lambda>f. - int (wf_count f))
       (map (\<lambda>(word, count).
               \<lparr>wf_word = word, wf_count = count,
                wf_percentage = (real count / real totalSamples) * 100\<rparr>) counts)"

definition entropyOf :: "WordFrequency list \<Rightarrow> real" where
  "entropyOf topWords =
     - foldl (\<lambda>sum f. let p = wf_percentage f / 100
                         in sum + (if p > 0 then p * log 2 p else 0)) 0 topWords"

text \<open>\<^verbatim>\<open>if (!groups.has(key)) groups.set(key, []); groups.get(key).push(sample)\<close>\<close>

fun pushGroup :: "'k \<Rightarrow> Sample \<Rightarrow> ('k \<times> Sample list) list \<Rightarrow> ('k \<times> Sample list) list" where
  "pushGroup key s [] = [(key, [s])]"
| "pushGroup key s ((k, g) # rest) =
     (if k = key then (k, g @ [s]) # rest else (k, g) # pushGroup key s rest)"

definition groupBy :: "(Sample \<Rightarrow> 'k) \<Rightarrow> Sample list \<Rightarrow> ('k \<times> Sample list) list" where
  "groupBy key ss = foldl (\<lambda>m s. pushGroup (key s) s m) [] ss"

text \<open>The only exception \<^verbatim>\<open>generateResults\<close> could raise: reading
  \<^verbatim>\<open>modelSamples[0].temperature\<close> of an empty group.\<close>

datatype AggregationError = TypeError

definition modelResult :: "string \<times> Sample list \<Rightarrow> AggregationError + ModelResult" where
  "modelResult g =
     (case g of (modelId, modelSamples) \<Rightarrow>
        (case modelSamples of
           [] \<Rightarrow> Inl TypeError
         | sampleConfig # _ \<Rightarrow>
             Inr \<lparr>mr_modelId = modelId,
                  mr_config = \<lparr>c_temperature = s_temperature sampleConfig,
                               c_topK = s_topK sampleConfig\<rparr>,
                  mr_words = frequencies (wordCounts modelSamples) (length modelSamples),
                  mr_totalSamples = length modelSamples,
                  mr_uniqueWords = length (wordCounts modelSamples)\<rparr>))"

text \<open>\<^verbatim>\<open>modelGroups.forEach(...)\<close>: the first exception ends the traversal.\<close>

fun forEachModel :: "(string \<times> Sample list) list \<Rightarrow> AggregationError + ModelResult list" where
  "forEachModel [] = Inr []"
| "forEachModel (g # gs) =
     (case modelResult g of
        Inl err \<Rightarrow> Inl err
      | Inr r \<Rightarrow> (case forEachModel gs of Inl err \<Rightarrow> Inl err | Inr rs \<Rightarrow> Inr (r # rs)))"

definition temperatureResult :: "real \<times> Sample list \<Rightarrow> real \<times> WordFrequency list" where
  "temperatureResult g =
     (case g of (temperature, tempSamples) \<Rightarrow>
        (temperature, frequencies (wordCounts tempSamples) (length tempSamples)))"

definition generateResults :: "Experiment \<Rightarrow> Sample list \<Rightarrow> AggregationError + ExperimentResults" where
  "generateResults e ss =
     (let counts = wordCounts ss;
          totalSamples = length ss;
          uniqueWords = length counts;
          topWords = frequencies counts totalSamples;
          entropy = entropyOf topWords
      in case forEachModel (groupBy s_modelId ss) of
           Inl err \<Rightarrow> Inl err
         | Inr byModel \<Rightarrow>
             Inr \<lparr>r_experimentId = e_id e,
                  r_totalSamples = totalSamples,
                  r_uniqueWords = uniqueWords,
                  r_topWords = topWords,
                  r_entropy = entropy,
                  r_byModel = byModel,
                  r_byTemperature = map temperatureResult (groupBy s_temperature ss)\<rparr>)"

subsection \<open>The runner and its collaborators as one state\<close>

text \<open>
  JavaScript objects are shared by reference: the task that executes an experiment keeps
  its \<^verbatim>\<open>RunningExperiment\<close> object after \<^verbatim>\<open>abort\<close> has removed it from the runner's map.
  \<open>heap\<close> holds the objects, \<open>runningExperiments\<close> maps an experiment id to the reference of
  its object. The three object stores of \<^verbatim>\<open>storage\<close> are part of the state; their writes
  succeed, except \<^verbatim>\<open>saveSample\<close>, whose outcome comes with each call (below).
  \<open>progressUpdates\<close> records the snapshots handed to \<^verbatim>\<open>onProgressUpdate\<close>, oldest first, and
  \<open>calls\<close> counts the provider calls issued so far.
\<close>

record World =
  heap :: "nat \<Rightarrow> RunningExperiment"
  nextRef :: nat
  runningExperiments :: "string \<rightharpoonup> nat"
  savedExperiments :: "string \<rightharpoonup> Experiment"
  savedSamples :: "Sample list"
  savedResults :: "string \<rightharpoonup> ExperimentResults"
  progressUpdates :: "(string \<times> RunProgress) list"
  calls :: nat

datatype Error = AlreadyRunning | MissingCredentials "string list" | NotRunning
  | Aggregation AggregationError

text \<open>What one provider call does, as seen by the runner: \<^verbatim>\<open>providers.sample\<close> returns a
  word or throws; \<^verbatim>\<open>storage.saveSample\<close> succeeds or throws; and \<^verbatim>\<open>abort\<close> may be called
  for this experiment while the call is in flight.\<close>

datatype CallError = Timeout | EmptyResponse | HttpError | NetworkError

record CallEvent =
  ev_reply :: "CallError + string"
  ev_saveOk :: bool
  ev_abort :: bool

type_synonym Oracle = "nat \<Rightarrow> CallEvent"

definition setObject :: "nat \<Rightarrow> RunningExperiment \<Rightarrow> World \<Rightarrow> World" where
  "setObject a r w = w\<lparr>heap := (heap w)(a := r)\<rparr>"

definition saveExperiment :: "Experiment \<Rightarrow> World \<Rightarrow> World" where
  "saveExperiment e w = w\<lparr>savedExperiments := (savedExperiments w)(e_id e \<mapsto> e)\<rparr>"

definition saveResults :: "ExperimentResults \<Rightarrow> World \<Rightarrow> World" where
  "saveResults res w = w\<lparr>savedResults := (savedResults w)(r_experimentId res \<mapsto> res)\<rparr>"

definition saveSample :: "Sample \<Rightarrow> World \<Rightarrow> World" where
  "saveSample s w = w\<lparr>savedSamples := savedSamples w @ [s]\<rparr>"

definition deleteRunning :: "string \<Rightarrow> World \<Rightarrow> World" where
  "deleteRunning experimentId w =
     w\<lparr>runningExperiments := (runningExperiments w)(experimentId := None)\<rparr>"

text \<open>\<^verbatim>\<open>samples.reduce((sum, sample) => sum + sample.cost, 0)\<close>\<close>

definition actualCostOf :: "Sample list \<Rightarrow> real" where
  "actualCostOf ss = foldl (\<lambda>sum sample. sum + s_cost sample) 0 ss"

subsection \<open>\<^verbatim>\<open>findModelById\<close> and the credential check of \<^verbatim>\<open>start\<close>\<close>

fun findModelIn :: "Provider list \<Rightarrow> string \<Rightarrow> Model option" where
  "findModelIn [] modelId = None"
| "findModelIn (provider # rest) modelId =
     (case find (\<lambda>m. m_id m = modelId) (p_models provider) of
        Some model \<Rightarrow> Some model
      | None \<Rightarrow> findModelIn rest modelId)"

definition findModelById :: "string \<Rightarrow> Model option" where
  "findModelById modelId = findModelIn PROVIDER_DATA modelId"

text \<open>\<^verbatim>\<open>Set.add\<close> on a set kept in insertion order.\<close>

definition setAdd :: "'a \<Rightarrow> 'a list \<Rightarrow> 'a list" where
  "setAdd x xs = (if x \<in> set xs then xs else xs @ [x])"

definition requiredProviders :: "string list \<Rightarrow> string list" where
  "requiredProviders modelIds =
     foldl (\<lambda>req modelId.
              case findModelById modelId of
                None \<Rightarrow> req
              | Some model \<Rightarrow> setAdd (m_providerId model) req) [] modelIds"

text \<open>\<^verbatim>\<open>apiKeys[providerId]\<close> is truthy: the key is present and not the empty string.\<close>

definition hasKey :: "(string \<rightharpoonup> string) \<Rightarrow> string \<Rightarrow> bool" where
  "hasKey apiKeys providerId =
     (case apiKeys providerId of None \<Rightarrow> False | Some key \<Rightarrow> key \<noteq> [])"

definition missingKeys :: "(string \<rightharpoonup> string) \<Rightarrow> string list \<Rightarrow> string list" where
  "missingKeys apiKeys modelIds =
     filter (\<lambda>providerId. \<not> hasKey apiKeys providerId) (requiredProviders modelIds)"

subsection \<open>\<^verbatim>\<open>ExperimentRunner.start\<close>\<close>

definition initialProgress :: "Experiment \<Rightarrow> RunProgress" where
  "initialProgress e =
     \<lparr>rp_totalCalls = e_totalCalls e, rp_completedCalls = 0, rp_currentModel = [],
      rp_currentConfig = \<lparr>c_temperature = 0, c_topK = 0\<rparr>,
      rp_runningCost = 0, rp_recentWords = []\<rparr>"

text \<open>\<open>start\<close> returns the reference of the new \<^verbatim>\<open>RunningExperiment\<close>, with which the
  caller launches \<open>executeExperiment\<close>; when it throws, the state is the one it was given.\<close>

definition start :: "Experiment \<Rightarrow> (string \<rightharpoonup> string) \<Rightarrow> World \<Rightarrow> (Error + nat) \<times> World" where
  "start e apiKeys w =
     (if runningExperiments w (e_id e) \<noteq> None then (Inl AlreadyRunning, w)
      else let missing = missingKeys apiKeys (e_selectedModels e) in
        if length missing > 0 then (Inl (MissingCredentials missing), w)
        else
          let a = nextRef w;
              e1 = e\<lparr>e_status := running\<rparr>;
              runningExperiment =
                \<lparr>re_experiment = e1, re_aborted = False,
                 re_progress = initialProgress e, re_samples = []\<rparr>;
              w1 = (setObject a runningExperiment w)
                     \<lparr>nextRef := Suc a,
                      runningExperiments := (runningExperiments w)(e_id e \<mapsto> a)\<rparr>
          in (Inr a, saveExperiment e1 w1))"

subsection \<open>\<^verbatim>\<open>completeExperiment\<close>, \<^verbatim>\<open>handleError\<close>, \<^verbatim>\<open>abort\<close>, \<^verbatim>\<open>getProgress\<close>\<close>

text \<open>Each of the three runs without interleaving; the community submission of
  \<^verbatim>\<open>completeExperiment\<close>, whose outcome nothing awaits, is left out.\<close>

definition completeExperiment :: "string \<Rightarrow> World \<Rightarrow> (Error + unit) \<times> World" where
  "completeExperiment experimentId w =
     (case runningExperiments w experimentId of
        None \<Rightarrow> (Inr (), w)
      | Some a \<Rightarrow>
          let r = heap w a;
              e = (re_experiment r)
                    \<lparr>e_status := completed,
                     e_actualCost := Some (actualCostOf (re_samples r)),
                     e_progress := Some 100\<rparr>;
              w1 = saveExperiment e (setObject a (r\<lparr>re_experiment := e\<rparr>) w)
          in (case generateResults e (re_samples r) of
                Inl err \<Rightarrow> (Inl (Aggregation err), w1)
              | Inr results \<Rightarrow> (Inr (), deleteRunning experimentId (saveResults results w1))))"

definition handleError :: "string \<Rightarrow> World \<Rightarrow> (Error + unit) \<times> World" where
  "handleError experimentId w =
     (case runningExperiments w experimentId of
        None \<Rightarrow> (Inr (), w)
      | Some a \<Rightarrow>
          let r = heap w a;
              e = (re_experiment r)
                    \<lparr>e_status := failed,
                     e_actualCost := Some (actualCostOf (re_samples r))\<rparr>;
              w1 = saveExperiment e (setObject a (r\<lparr>re_experiment := e\<rparr>) w)
          in if length (re_samples r) > 0 then
               (case generateResults e (re_samples r) of
                  Inl err \<Rightarrow> (Inl (Aggregation err), w1)
                | Inr results \<Rightarrow> (Inr (), deleteRunning experimentId (saveResults results w1)))
             else (Inr (), deleteRunning experimentId w1))"

definition abort :: "string \<Rightarrow> World \<Rightarrow> (Error + unit) \<times> World" where
  "abort experimentId w =
     (case runningExperiments w experimentId of
        None \<Rightarrow> (Inl NotRunning, w)
      | Some a \<Rightarrow>
          let r = heap w a;
              e = (re_experiment r)
                    \<lparr>e_status := cancelled,
                     e_actualCost := Some (actualCostOf (re_samples r))\<rparr>;
              w1 = saveExperiment e
                     (setObject a (r\<lparr>re_aborted := True, re_experiment := e\<rparr>) w)
          in if length (re_samples r) > 0 then
               (case generateResults e (re_samples r) of
                  Inl err \<Rightarrow> (Inl (Aggregation err), w1)
                | Inr results \<Rightarrow> (Inr (), deleteRunning experimentId (saveResults results w1)))
             else (Inr (), deleteRunning experimentId w1))"

definition getProgress :: "string \<Rightarrow> World \<Rightarrow> RunProgress option" where
  "getProgress experimentId w =
     (case runningExperiments w experimentId of
        None \<Rightarrow> None
      | Some a \<Rightarrow> Some (re_progress (heap w a)))"

definition isRunning :: "string \<Rightarrow> World \<Rightarrow> bool" where
  "isRunning experimentId w = (runningExperiments w experimentId \<noteq> None)"

subsection \<open>The sampling loops (\<^verbatim>\<open>executeSamplesForConfig\<close>, \<^verbatim>\<open>executeExperiment\<close>)\<close>

text \<open>The \<^verbatim>\<open>try\<close> block of one repetition, for the object at reference \<open>a\<close>. The call is
  number \<open>calls w\<close>; an exception of the provider or of \<^verbatim>\<open>saveSample\<close> is caught by the
  \<^verbatim>\<open>catch\<close> of the same repetition, which logs it and changes nothing.\<close>

definition newSample :: "Experiment \<Rightarrow> string \<Rightarrow> string \<Rightarrow> ExperimentConfig \<Rightarrow> string \<Rightarrow> Sample" where
  "newSample e providerId modelId config word =
     \<lparr>s_experimentId = e_id e, s_modelId = modelId,
      s_temperature = c_temperature config, s_topK = c_topK config,
      s_word = word,
      s_cost = estimateCost providerId
                 \<lparr>cp_model = modelId,
                  cp_inputTokens = real ((length (e_stimulus e) + 3) div 4),
                  cp_outputTokens = 1\<rparr>\<rparr>"

definition recordSample :: "Sample \<Rightarrow> RunningExperiment \<Rightarrow> RunningExperiment" where
  "recordSample sample r =
     r\<lparr>re_samples := re_samples r @ [sample],
       re_progress := (re_progress r)
         \<lparr>rp_completedCalls := rp_completedCalls (re_progress r) + 1,
          rp_runningCost := rp_runningCost (re_progress r) + s_cost sample,
          rp_recentWords := s_word sample # take 9 (rp_recentWords (re_progress r))\<rparr>\<rparr>"

definition onProgressUpdate :: "string \<Rightarrow> RunProgress \<Rightarrow> World \<Rightarrow> World" where
  "onProgressUpdate experimentId snapshot w =
     w\<lparr>progressUpdates := progressUpdates w @ [(experimentId, snapshot)]\<rparr>"

definition trySample :: "Oracle \<Rightarrow> nat \<Rightarrow> string \<Rightarrow> string \<Rightarrow> ExperimentConfig \<Rightarrow> World \<Rightarrow> World" where
  "trySample oracle a providerId modelId config w =
     (let ev = oracle (calls w);
          w1 = w\<lparr>calls := Suc (calls w)\<rparr>;
          w2 = (if ev_abort ev then snd (abort (e_id (re_experiment (heap w1 a))) w1) else w1)
      in case ev_reply ev of
           Inl err \<Rightarrow> w2
         | Inr word \<Rightarrow>
             if \<not> ev_saveOk ev then w2
             else
               let e = re_experiment (heap w2 a);
                   sample = newSample e providerId modelId config word;
                   w3 = saveSample sample w2;
                   w4 = setObject a (recordSample sample (heap w3 a)) w3
               in onProgressUpdate (e_id e) (re_progress (heap w4 a)) w4)"

text \<open>\<^verbatim>\<open>for (let i = 0; i < experiment.samplesPerConfig; i++)\<close> with its \<^verbatim>\<open>break\<close>, over
  the indices still to run. Nothing writes \<^verbatim>\<open>samplesPerConfig\<close>, \<^verbatim>\<open>configs\<close> or
  \<^verbatim>\<open>selectedModels\<close> while the experiment runs, so the bounds are read once.\<close>

fun samplesLoop :: "Oracle \<Rightarrow> nat \<Rightarrow> string \<Rightarrow> string \<Rightarrow> ExperimentConfig \<Rightarrow> nat list \<Rightarrow> World \<Rightarrow> World" where
  "samplesLoop oracle a providerId modelId config [] w = w"
| "samplesLoop oracle a providerId modelId config (i # rest) w =
     (if re_aborted (heap w a) then w
      else samplesLoop oracle a providerId modelId config rest
             (trySample oracle a providerId modelId config w))"

definition executeSamplesForConfig :: "Oracle \<Rightarrow> nat \<Rightarrow> string \<Rightarrow> string \<Rightarrow> ExperimentConfig \<Rightarrow> World \<Rightarrow> World" where
  "executeSamplesForConfig oracle a providerId modelId config w =
     samplesLoop oracle a providerId modelId config
       [0 ..< e_samplesPerConfig (re_experiment (heap w a))] w"

definition setCurrentConfig :: "nat \<Rightarrow> ExperimentConfig \<Rightarrow> World \<Rightarrow> World" where
  "setCurrentConfig a config w =
     setObject a ((heap w a)\<lparr>re_progress := (re_progress (heap w a))\<lparr>rp_currentConfig := config\<rparr>\<rparr>) w"

definition setCurrentModel :: "nat \<Rightarrow> string \<Rightarrow> World \<Rightarrow> World" where
  "setCurrentModel a name w =
     setObject a ((heap w a)\<lparr>re_progress := (re_progress (heap w a))\<lparr>rp_currentModel := name\<rparr>\<rparr>) w"

text \<open>\<^verbatim>\<open>for (const config of experiment.configs)\<close>\<close>

fun configsLoop :: "Oracle \<Rightarrow> nat \<Rightarrow> string \<Rightarrow> string \<Rightarrow> ExperimentConfig list \<Rightarrow> World \<Rightarrow> World" where
  "configsLoop oracle a providerId modelId [] w = w"
| "configsLoop oracle a providerId modelId (config # rest) w =
     (if re_aborted (heap w a) then w
      else configsLoop oracle a providerId modelId rest
             (executeSamplesForConfig oracle a providerId modelId config
                (setCurrentConfig a config w)))"

text \<open>\<^verbatim>\<open>for (const modelId of experiment.selectedModels)\<close>: an unknown model and a model
  whose provider has no key are skipped (\<^verbatim>\<open>continue\<close>).\<close>

fun modelsLoop :: "Oracle \<Rightarrow> nat \<Rightarrow> (string \<rightharpoonup> string) \<Rightarrow> string list \<Rightarrow> World \<Rightarrow> World" where
  "modelsLoop oracle a apiKeys [] w = w"
| "modelsLoop oracle a apiKeys (modelId # rest) w =
     (if re_aborted (heap w a) then w
      else case findModelById modelId of
             None \<Rightarrow> modelsLoop oracle a apiKeys rest w
           | Some model \<Rightarrow>
               if \<not> hasKey apiKeys (m_providerId model) then modelsLoop oracle a apiKeys rest w
               else modelsLoop oracle a apiKeys rest
                      (configsLoop oracle a (m_providerId model) modelId
                         (e_configs (re_experiment (heap w a)))
                         (setCurrentModel a (m_name model) w)))"

text \<open>The body of \<^verbatim>\<open>executeExperiment\<close>: the loops, then \<^verbatim>\<open>completeExperiment\<close> unless the
  abort flag is up; an exception of \<^verbatim>\<open>completeExperiment\<close> goes to \<^verbatim>\<open>handleError\<close>, whose
  own outcome nobody awaits.\<close>

definition executeExperiment :: "Oracle \<Rightarrow> nat \<Rightarrow> (string \<rightharpoonup> string) \<Rightarrow> World \<Rightarrow> World" where
  "executeExperiment oracle a apiKeys w =
     (let w1 = modelsLoop oracle a apiKeys (e_selectedModels (re_experiment (heap w a))) w
      in if \<not> re_aborted (heap w1 a) then
           (let experimentId = e_id (re_experiment (heap w1 a))
            in case completeExperiment experimentId w1 of
                 (Inl err, w2) \<Rightarrow> snd (handleError experimentId w2)
               | (Inr u, w2) \<Rightarrow> w2)
         else w1)"


text \<open>A runner in which nothing has run yet.\<close>

definition emptyWorld :: World where
  "emptyWorld =
     \<lparr>heap = (\<lambda>a. \<lparr>re_experiment =
                      \<lparr>e_id = [], e_stimulus = [], e_selectedModels = [], e_configs = [],
                       e_samplesPerConfig = 0, e_estimatedCost = 0, e_actualCost = None,
                       e_totalCalls = 0, e_status = pending, e_progress = None\<rparr>,
                    re_aborted = False,
                    re_progress = \<lparr>rp_totalCalls = 0, rp_completedCalls = 0,
                                   rp_currentModel = [],
                                   rp_currentConfig = \<lparr>c_temperature = 0, c_topK = 0\<rparr>,
                                   rp_runningCost = 0, rp_recentWords = []\<rparr>,
                    re_samples = []\<rparr>),
      nextRef = 0, runningExperiments = Map.empty, savedExperiments = Map.empty,
      savedSamples = [], savedResults = Map.empty, progressUpdates = [], calls = 0\<rparr>"

text \<open>The summand of the entropy, \<^verbatim>\<open>p > 0 ? p * Math.log2(p) : 0\<close>, named for the proofs.\<close>

definition plogp :: "real \<Rightarrow> real" where
  "plogp p = (if p > 0 then p * log 2 p else 0)"

subsection \<open>Example data\<close>

definition exampleExperiment :: Experiment where
  "exampleExperiment =
     \<lparr>e_id = ''exp-1'', e_stimulus = ''The sky is'', e_selectedModels = [''gpt-4o''],
      e_configs = [\<lparr>c_temperature = 7/10, c_topK = 40\<rparr>], e_samplesPerConfig = 3,
      e_estimatedCost = 0, e_actualCost = None, e_totalCalls = 3, e_status = pending,
      e_progress = None\<rparr>"

definition exampleKeys :: "string \<rightharpoonup> string" where
  "exampleKeys = [''openai'' \<mapsto> ''sk-example'']"


text \<open>Every call answers \<^verbatim>\<open>yes\<close>, except call number 1, which times out; no abort arrives.\<close>

definition exampleOracle :: Oracle where
  "exampleOracle n =
     (if n = 1 then \<lparr>ev_reply = Inl Timeout, ev_saveOk = True, ev_abort = False\<rparr>
      else \<lparr>ev_reply = Inr ''yes'', ev_saveOk = True, ev_abort = False\<rparr>)"

definition exampleSample :: "string \<Rightarrow> Sample" where
  "exampleSample word =
     \<lparr>s_experimentId = ''exp-1'', s_modelId = ''gpt-4o'', s_temperature = 7/10, s_topK = 40,
      s_word = word, s_cost = 0\<rparr>"

subsection \<open>Notions used to state the properties of a run\<close>

text \<open>The fields of a running experiment that nothing writes after \<^verbatim>\<open>start\<close>.\<close>

definition fixedPart :: "RunningExperiment \<Rightarrow> string \<times> string \<times> string list \<times> ExperimentConfig list \<times> nat \<times> nat" where
  "fixedPart r =
     (e_id (re_experiment r), e_stimulus (re_experiment r), e_selectedModels (re_experiment r),
      e_configs (re_experiment r), e_samplesPerConfig (re_experiment r),
      rp_totalCalls (re_progress r))"

definition completedCalls :: "nat \<Rightarrow> World \<Rightarrow> nat" where
  "completedCalls a w = rp_completedCalls (re_progress (heap w a))"

text \<open>The word of a call that yields a sample: the provider answered and the sample was
  stored.\<close>

definition okWord :: "CallEvent \<Rightarrow> string option" where
  "okWord ev =
     (case ev_reply ev of
        Inl err \<Rightarrow> None
      | Inr word \<Rightarrow> if ev_saveOk ev then Some word else None)"

text \<open>The words of the successful calls among calls \<open>c, \<dots>, c + k - 1\<close>, in order.\<close>

definition okWords :: "Oracle \<Rightarrow> nat \<Rightarrow> nat \<Rightarrow> string list" where
  "okWords oracle c k = List.map_filter (\<lambda>n. okWord (oracle n)) [c ..< c + k]"

text \<open>A model the model loop does not skip.\<close>

definition runnable :: "(string \<rightharpoonup> string) \<Rightarrow> string \<Rightarrow> bool" where
  "runnable apiKeys modelId =
     (case findModelById modelId of
        None \<Rightarrow> False
      | Some model \<Rightarrow> hasKey apiKeys (m_providerId model))"

text \<open>\<open>advances oracle a k w w'\<close>: from \<open>w\<close> to \<open>w'\<close> the task of the object at \<open>a\<close> issued
  exactly \<open>k\<close> calls, was not aborted, and recorded exactly the successful ones.\<close>

definition advances :: "Oracle \<Rightarrow> nat \<Rightarrow> nat \<Rightarrow> World \<Rightarrow> World \<Rightarrow> bool" where
  "advances oracle a k w w' \<longleftrightarrow>
     calls w' = calls w + k
   \<and> \<not> re_aborted (heap w' a)
   \<and> fixedPart (heap w' a) = fixedPart (heap w a)
   \<and> runningExperiments w' = runningExperiments w
   \<and> map s_word (re_samples (heap w' a))
       = map s_word (re_samples (heap w a)) @ okWords oracle (calls w) k
   \<and> completedCalls a w' = completedCalls a w + length (okWords oracle (calls w) k)"

text \<open>\<open>progresses a S k w w'\<close>: from \<open>w\<close> to \<open>w'\<close> the task of the object at \<open>a\<close> completed
  at most \<open>k\<close> calls, every new sample is of a model in \<open>S\<close>, and the progress updates it
  sent are ascending in \<^verbatim>\<open>completedCalls\<close>, above the count at \<open>w\<close> and up to the count at
  \<open>w'\<close>. It holds whether or not an abort arrives.\<close>

definition progresses :: "nat \<Rightarrow> string set \<Rightarrow> nat \<Rightarrow> World \<Rightarrow> World \<Rightarrow> bool" where
  "progresses a S k w w' \<longleftrightarrow>
     fixedPart (heap w' a) = fixedPart (heap w a)
   \<and> completedCalls a w \<le> completedCalls a w'
   \<and> completedCalls a w' \<le> completedCalls a w + k
   \<and> (\<exists>new. re_samples (heap w' a) = re_samples (heap w a) @ new
          \<and> (\<forall>s \<in> set new. s_modelId s \<in> S))
   \<and> (\<exists>new. progressUpdates w' = progressUpdates w @ new
          \<and> sorted (map (\<lambda>u. rp_completedCalls (snd u)) new)
          \<and> (\<forall>u \<in> set new.
                completedCalls a w < rp_completedCalls (snd u)
              \<and> rp_completedCalls (snd u) \<le> completedCalls a w'
              \<and> rp_totalCalls (snd u) = rp_totalCalls (re_progress (heap w a))
              \<and> fst u = e_id (re_experiment (heap w a))))"

subsection \<open>Building an experiment (\<^verbatim>\<open>generateRange\<close>, \<^verbatim>\<open>handleCreateExperiment\<close> of \<^verbatim>\<open>App.tsx\<close>)\<close>











subsection \<open>Normalising a provider response (\<^verbatim>\<open>BaseProvider.extractWord\<close>)\<close>

text \<open>A JavaScript string is a sequence of UTF-16 code units, here natural numbers;
  \<open>js\<close> writes an ASCII literal as one.\<close>

type_synonym jsString = "nat list"

definition js :: "string \<Rightarrow> jsString" where
  "js s = map of_char s"

text \<open>The characters \<^verbatim>\<open>\s\<close> matches and \<^verbatim>\<open>trim()\<close> removes: tab, line feed, vertical tab,
  form feed, carriage return, space, no-break space, U+1680, U+2000 to U+200A, U+2028,
  U+2029, U+202F, U+205F, U+3000 and U+FEFF.\<close>

definition isWhiteSpace :: "nat \<Rightarrow> bool" where
  "isWhiteSpace c \<longleftrightarrow>
     c \<in> {9, 10, 11, 12, 13, 32, 160, 5760, 8232, 8233, 8239, 8287, 12288, 65279}
   \<or> (8192 \<le> c \<and> c \<le> 8202)"

text \<open>\<^verbatim>\<open>\w\<close>: the digits, the ASCII letters and the underscore.\<close>

definition isWordChar :: "nat \<Rightarrow> bool" where
  "isWordChar c \<longleftrightarrow>
     (48 \<le> c \<and> c \<le> 57) \<or> (65 \<le> c \<and> c \<le> 90) \<or> c = 95 \<or> (97 \<le> c \<and> c \<le> 122)"

definition trim :: "jsString \<Rightarrow> jsString" where
  "trim s = rev (dropWhile isWhiteSpace (rev (dropWhile isWhiteSpace s)))"

text \<open>\<^verbatim>\<open>.replace(/[^\w\s'-]/g, '')\<close>: 39 is the apostrophe, 45 the hyphen.\<close>

definition removePunctuation :: "jsString \<Rightarrow> jsString" where
  "removePunctuation s = filter (\<lambda>c. isWordChar c \<or> isWhiteSpace c \<or> c = 39 \<or> c = 45) s"

text \<open>\<^verbatim>\<open>.split(/\s+/)[0]\<close>: the part before the first white space; empty when the string
  starts with white space, the whole string when it has none.\<close>

definition firstSplit :: "jsString \<Rightarrow> jsString" where
  "firstSplit s = takeWhile (\<lambda>c. \<not> isWhiteSpace c) s"

text \<open>\<^verbatim>\<open>.toLowerCase()\<close> on the ASCII letters; where \<^verbatim>\<open>extractWord\<close> applies it, the string
  holds only word characters, apostrophes and hyphens.\<close>

definition toLowerCase :: "jsString \<Rightarrow> jsString" where
  "toLowerCase s = map (\<lambda>c. if 65 \<le> c \<and> c \<le> 90 then c + 32 else c) s"

definition extractWord :: "jsString \<Rightarrow> CallError + jsString" where
  "extractWord text =
     (let cleaned = toLowerCase (firstSplit (removePunctuation (trim text)))
      in if cleaned = [] then Inl EmptyResponse else Inr cleaned)"

text \<open>The normalisation as the specification words it, for comparison: strip the
  punctuation, take the first white-space-delimited token, lowercase it, and fail exactly
  when there is no non-empty token.\<close>

definition extractWord_spec :: "jsString \<Rightarrow> CallError + jsString" where
  "extractWord_spec text =
     (let token = takeWhile (\<lambda>c. \<not> isWhiteSpace c)
                    (dropWhile isWhiteSpace (removePunctuation text))
      in if token = [] then Inl EmptyResponse else Inr (toLowerCase token))"

subsection \<open>The rate limiter (\<^verbatim>\<open>RateLimiter\<close>, \<^verbatim>\<open>ProviderRegistry.sample\<close>)\<close>

































section \<open>Price tables\<close>

text \<open>
  C9. Every model of \<^verbatim>\<open>PROVIDER_DATA\<close> should carry the prices its provider's
  \<^verbatim>\<open>estimateCost\<close> uses. The two tables disagree on exactly four models:
  \<^verbatim>\<open>o1\<close>, \<^verbatim>\<open>o1-mini\<close> and \<^verbatim>\<open>o3-mini\<close> have no entry in the OpenAI pricing table (their
  calls cost \<open>0\<close>), and \<^verbatim>\<open>moonshot-v1-128k\<close> is listed at 0.006/0.012 while
  \<^verbatim>\<open>KimiProvider.estimateCost\<close> charges 0.005/0.01.
\<close>

theorem C9_price_tables_disagree:
  "map m_id (filter (\<lambda>m. \<not> pricesAgree m) allModels)
     = [''o1'', ''o1-mini'', ''o3-mini'', ''moonshot-v1-128k'']
   \<and> providerPricing (mkModel ''moonshot-v1-128k'' ''kimi'' ''Moonshot v1 128K'' ''1'' (6/1000) (12/1000))
     = Some \<lparr>pr_input = 5/1000, pr_output = 1/100\<rparr>
   \<and> estimateCost ''kimi'' \<lparr>cp_model = ''moonshot-v1-128k'', cp_inputTokens = 1000, cp_outputTokens = 0\<rparr>
     = 5/1000
   \<and> estimateCost ''openai'' \<lparr>cp_model = ''o1'', cp_inputTokens = 1000, cp_outputTokens = 1000\<rparr> = 0"
  by (simp add: allModels_def PROVIDER_DATA_def anthropic_models_def openai_models_def
      kimi_models_def mkModel_def pricesAgree_def providerPricing_def getProvider_def
      anthropic_modelPricing_def openai_modelPricing_def kimi_modelPricing_def
      estimateCost_def costFrom_def)

section \<open>Result aggregation\<close>

subsection \<open>Word counts\<close>

lemma foldl_add_sum_list:
  "foldl (\<lambda>sum x. sum + g x) (z::real) xs = z + sum_list (map g xs)"
  by (induction xs arbitrary: z) (simp_all add: add.assoc)

lemma sum_list_insort_key:
  "sum_list (map g (insort_key k x xs)) = (g x :: real) + sum_list (map g xs)"
  by (induction xs) simp_all

lemma sum_list_sort_key:
  "sum_list (map g (sort_key k xs)) = (sum_list (map g xs) :: real)"
  by (induction xs) (simp_all add: sum_list_insort_key)

lemma entropyOf_frequencies:
  "entropyOf (frequencies counts n)
     = - sum_list (map (\<lambda>(w, c). plogp (real c / real n)) counts)"
proof -
  have "entropyOf (frequencies counts n)
      = - sum_list (map (\<lambda>f. plogp (wf_percentage f / 100)) (frequencies counts n))"
    by (simp add: entropyOf_def foldl_add_sum_list plogp_def Let_def)
  also have "\<dots> = - sum_list (map (\<lambda>f. plogp (wf_percentage f / 100))
        (map (\<lambda>(word, count). \<lparr>wf_word = word, wf_count = count,
                wf_percentage = (real count / real n) * 100\<rparr>) counts))"
    by (simp only: frequencies_def sum_list_sort_key)
  also have "\<dots> = - sum_list (map (\<lambda>(w, c). plogp (real c / real n)) counts)"
    by (simp add: comp_def case_prod_unfold)
  finally show ?thesis .
qed

lemma countWord_keys:
  "map fst (countWord w m) = (if w \<in> fst ` set m then map fst m else map fst m @ [w])"
  by (induction w m rule: countWord.induct) (force simp: image_iff)+

lemma countWord_distinct:
  "distinct (map fst m) \<Longrightarrow> distinct (map fst (countWord w m))"
  by (simp add: countWord_keys)

lemma countWord_sum:
  "sum_list (map snd (countWord w m)) = Suc (sum_list (map snd m))"
  by (induction m) auto

lemma countWord_pos:
  "\<forall>x \<in> set m. 0 < snd x \<Longrightarrow> \<forall>x \<in> set (countWord w m). 0 < snd x"
  by (induction w m rule: countWord.induct) (auto split: if_splits)

lemma countWord_map_of:
  "map_of (countWord w m) k =
     (if k = w then Some (case map_of m w of None \<Rightarrow> 1 | Some c \<Rightarrow> c + 1) else map_of m k)"
  by (induction m) auto

lemma foldl_countWord_keys:
  "set (map fst (foldl (\<lambda>m s. countWord (s_word s) m) m0 ss)) = fst ` set m0 \<union> s_word ` set ss"
proof (induction ss arbitrary: m0)
  case Nil
  then show ?case by simp
next
  case (Cons s ss)
  have "fst ` set (countWord (s_word s) m0) = insert (s_word s) (fst ` set m0)"
    using countWord_keys[of "s_word s" m0]
    by (metis (no_types, lifting) Un_insert_right insert_absorb list.set(1,2) list.set_map set_append sup_bot.right_neutral)
  with Cons.IH[of "countWord (s_word s) m0"] show ?case by auto
qed

lemma foldl_countWord_distinct:
  "distinct (map fst m0) \<Longrightarrow> distinct (map fst (foldl (\<lambda>m s. countWord (s_word s) m) m0 ss))"
  by (induction ss arbitrary: m0) (simp_all add: countWord_distinct)

lemma foldl_countWord_sum:
  "sum_list (map snd (foldl (\<lambda>m s. countWord (s_word s) m) m0 ss)) = sum_list (map snd m0) + length ss"
  by (induction ss arbitrary: m0) (simp_all add: countWord_sum)

lemma foldl_countWord_pos:
  "\<forall>x \<in> set m0. 0 < snd x \<Longrightarrow> \<forall>x \<in> set (foldl (\<lambda>m s. countWord (s_word s) m) m0 ss). 0 < snd x"
proof (induction ss arbitrary: m0)
  case Nil
  then show ?case by simp
next
  case (Cons s ss)
  from Cons.prems have "\<forall>x \<in> set (countWord (s_word s) m0). 0 < snd x"
    by (rule countWord_pos)
  from Cons.IH[OF this] show ?case by simp
qed

lemma foldl_countWord_map_of:
  "map_of (foldl (\<lambda>m s. countWord (s_word s) m) m0 ss) k =
     (let n = count_list (map s_word ss) k in
      case map_of m0 k of None \<Rightarrow> (if n = 0 then None else Some n) | Some c \<Rightarrow> Some (c + n))"
  by (induction ss arbitrary: m0) (auto simp: countWord_map_of Let_def split: option.splits)

lemma wordCounts_keys: "set (map fst (wordCounts ss)) = s_word ` set ss"
  by (simp add: wordCounts_def foldl_countWord_keys del: set_map)

lemma wordCounts_distinct: "distinct (map fst (wordCounts ss))"
  by (simp add: wordCounts_def foldl_countWord_distinct)

lemma wordCounts_sum: "sum_list (map snd (wordCounts ss)) = length ss"
  by (simp add: wordCounts_def foldl_countWord_sum)

lemma wordCounts_pos: "x \<in> set (wordCounts ss) \<Longrightarrow> 0 < snd x"
  using foldl_countWord_pos[of "[]" ss] by (simp add: wordCounts_def)

lemma wordCounts_length: "length (wordCounts ss) = card (s_word ` set ss)"
  by (metis wordCounts_keys wordCounts_distinct distinct_card length_map)

lemma wordCounts_count:
  "(w, c) \<in> set (wordCounts ss) \<Longrightarrow> c = count_list (map s_word ss) w"
proof -
  assume "(w, c) \<in> set (wordCounts ss)"
  then have "map_of (wordCounts ss) w = Some c"
    using wordCounts_distinct by simp
  then show ?thesis
    by (simp add: wordCounts_def foldl_countWord_map_of Let_def split: if_splits)
qed


lemma plogp_le0: "0 < p \<Longrightarrow> p \<le> 1 \<Longrightarrow> plogp p \<le> 0"
  by (simp add: plogp_def mult_nonneg_nonpos)

lemma plogp_lt0: "0 < p \<Longrightarrow> p < 1 \<Longrightarrow> plogp p < 0"
  by (simp add: plogp_def mult_pos_neg)

lemma plogp_1: "plogp 1 = 0"
  by (simp add: plogp_def)

lemma sum_list_nonpos: "(\<And>x. x \<in> set xs \<Longrightarrow> f x \<le> (0::real)) \<Longrightarrow> sum_list (map f xs) \<le> 0"
  by (induction xs) (auto intro: add_nonpos_nonpos)

lemma sum_list_neg:
  "(\<And>x. x \<in> set xs \<Longrightarrow> f x < (0::real)) \<Longrightarrow> xs \<noteq> [] \<Longrightarrow> sum_list (map f xs) < 0"
proof (induction xs)
  case Nil
  then show ?case by simp
next
  case (Cons x xs)
  have "f x < 0" using Cons.prems by simp
  moreover have "sum_list (map f xs) \<le> 0"
    using Cons.prems by (intro sum_list_nonpos) (simp add: less_imp_le)
  ultimately show ?case by simp
qed

lemma count_le_total:
  "x \<in> set (wordCounts ss) \<Longrightarrow> snd x \<le> length ss"
  using member_le_sum_list[of "snd x" "map snd (wordCounts ss)"] wordCounts_sum[of ss]
  by auto

lemma sum_list_pos_nat:
  "xs \<noteq> [] \<Longrightarrow> \<forall>x \<in> set xs. 0 < f x \<Longrightarrow> 0 < (sum_list (map f xs) :: nat)"
  by (induction xs) auto

lemma count_lt_total:
  assumes "x \<in> set (wordCounts ss)" "length (wordCounts ss) \<noteq> 1"
  shows "snd x < length ss"
proof -
  from assms(1) obtain as bs where split: "wordCounts ss = as @ x # bs"
    by (meson split_list)
  with assms(2) have ne: "as @ bs \<noteq> []" by auto
  have "\<forall>y \<in> set (as @ bs). 0 < snd y"
    using wordCounts_pos[of _ ss] split by auto
  with ne have "0 < sum_list (map snd (as @ bs))"
    by (rule sum_list_pos_nat)
  moreover have "length ss = sum_list (map snd (as @ bs)) + snd x"
    using wordCounts_sum[of ss] split by simp
  ultimately show ?thesis by linarith
qed

lemma wordCounts_Nil: "wordCounts ss = [] \<longleftrightarrow> ss = []"
  using wordCounts_sum[of ss] by (cases "wordCounts ss") (auto simp: wordCounts_def)

lemma entropy_nonneg: "0 \<le> entropyOf (frequencies (wordCounts ss) (length ss))"
proof -
  have "sum_list (map (\<lambda>(w, c). plogp (real c / real (length ss))) (wordCounts ss)) \<le> 0"
  proof (rule sum_list_nonpos)
    fix x assume x: "x \<in> set (wordCounts ss)"
    have b: "0 < snd x" "snd x \<le> length ss"
      using x wordCounts_pos count_le_total by auto
    have npos: "0 < length ss" using b by linarith
    have "0 < real (snd x) / real (length ss)" "real (snd x) / real (length ss) \<le> 1"
      using b npos by (simp_all add: field_simps)
    then have "plogp (real (snd x) / real (length ss)) \<le> 0"
      by (rule plogp_le0)
    then show "(case x of (w, c) \<Rightarrow> plogp (real c / real (length ss))) \<le> 0"
      by (simp add: case_prod_unfold)
  qed
  then show ?thesis by (simp add: entropyOf_frequencies)
qed

lemma entropy_zero_iff:
  assumes "ss \<noteq> []"
  shows "entropyOf (frequencies (wordCounts ss) (length ss)) = 0 \<longleftrightarrow> length (wordCounts ss) = 1"
proof
  assume one: "length (wordCounts ss) = 1"
  then obtain w c where wc: "wordCounts ss = [(w, c)]"
    by (cases "wordCounts ss") auto
  then have "c = length ss" using wordCounts_sum[of ss] by simp
  with wc assms show "entropyOf (frequencies (wordCounts ss) (length ss)) = 0"
    by (simp add: entropyOf_frequencies plogp_1)
next
  assume zero: "entropyOf (frequencies (wordCounts ss) (length ss)) = 0"
  show "length (wordCounts ss) = 1"
  proof (rule ccontr)
    assume not1: "length (wordCounts ss) \<noteq> 1"
    have ne: "wordCounts ss \<noteq> []" using assms by (simp add: wordCounts_Nil)
    have "sum_list (map (\<lambda>(w, c). plogp (real c / real (length ss))) (wordCounts ss)) < 0"
    proof (rule sum_list_neg[OF _ ne])
      fix x assume x: "x \<in> set (wordCounts ss)"
      have b: "0 < snd x" "snd x < length ss"
        using x wordCounts_pos count_lt_total not1 by auto
      have npos: "0 < length ss" using b by linarith
      have "0 < real (snd x) / real (length ss)" "real (snd x) / real (length ss) < 1"
        using b npos by (simp_all add: field_simps)
      then have "plogp (real (snd x) / real (length ss)) < 0"
        by (rule plogp_lt0)
      then show "(case x of (w, c) \<Rightarrow> plogp (real c / real (length ss))) < 0"
        by (simp add: case_prod_unfold)
    qed
    with zero show False by (simp add: entropyOf_frequencies)
  qed
qed

lemma entropy_uniform:
  assumes "ss \<noteq> []" and "\<forall>x \<in> set (wordCounts ss). snd x = c"
  shows "entropyOf (frequencies (wordCounts ss) (length ss)) = log 2 (real (length (wordCounts ss)))"
proof -
  let ?k = "length (wordCounts ss)"
  have ne: "wordCounts ss \<noteq> []" using assms(1) by (simp add: wordCounts_Nil)
  then have kpos: "0 < ?k" by simp
  have cpos: "0 < c" using ne assms(2) wordCounts_pos[of _ ss]
    by (metis last_in_set)
  have "map snd (wordCounts ss) = replicate ?k c"
    using assms(2) by (simp add: map_replicate_const[symmetric] cong: map_cong)
  then have n: "length ss = ?k * c"
    using wordCounts_sum[of ss] by (simp add: sum_list_replicate)
  have p: "real c / real (length ss) = 1 / real ?k"
    using cpos kpos by (simp add: n)
  have "map (\<lambda>(w, c'). plogp (real c' / real (length ss))) (wordCounts ss)
        = replicate ?k (plogp (1 / real ?k))"
    using assms(2) p by (simp add: map_replicate_const[symmetric] case_prod_unfold cong: map_cong)
  then have "entropyOf (frequencies (wordCounts ss) (length ss)) = - (real ?k * plogp (1 / real ?k))"
    by (simp add: entropyOf_frequencies sum_list_replicate)
  also have "\<dots> = log 2 (real ?k)"
    using kpos by (simp add: plogp_def log_divide)
  finally show ?thesis .
qed


lemma pushGroup_nonempty:
  "\<forall>x \<in> set m. snd x \<noteq> [] \<Longrightarrow> \<forall>x \<in> set (pushGroup key s m). snd x \<noteq> []"
  by (induction key s m rule: pushGroup.induct) (auto split: if_splits)

lemma foldl_pushGroup_nonempty:
  "\<forall>x \<in> set m0. snd x \<noteq> [] \<Longrightarrow>
   \<forall>x \<in> set (foldl (\<lambda>m s. pushGroup (key s) s m) m0 ss). snd x \<noteq> []"
proof (induction ss arbitrary: m0)
  case Nil
  then show ?case by simp
next
  case (Cons s ss)
  from Cons.prems have "\<forall>x \<in> set (pushGroup (key s) s m0). snd x \<noteq> []"
    by (rule pushGroup_nonempty)
  from Cons.IH[OF this] show ?case by simp
qed

lemma groupBy_nonempty: "x \<in> set (groupBy key ss) \<Longrightarrow> snd x \<noteq> []"
  using foldl_pushGroup_nonempty[of "[]" key ss] by (simp add: groupBy_def)

lemma forEachModel_total:
  "\<forall>x \<in> set gs. snd x \<noteq> [] \<Longrightarrow> \<exists>rs. forEachModel gs = Inr rs"
proof (induction gs)
  case Nil
  then show ?case by simp
next
  case (Cons g gs)
  obtain k ms where g: "g = (k, ms)" by (cases g)
  with Cons.prems obtain s rest where ms: "ms = s # rest" by (cases ms) auto
  from Cons obtain rs where "forEachModel gs = Inr rs" by auto
  with g ms show ?case by (simp add: modelResult_def)
qed

lemma generateResults_total:
  "\<exists>byModel. generateResults e ss =
     Inr \<lparr>r_experimentId = e_id e, r_totalSamples = length ss,
          r_uniqueWords = length (wordCounts ss),
          r_topWords = frequencies (wordCounts ss) (length ss),
          r_entropy = entropyOf (frequencies (wordCounts ss) (length ss)),
          r_byModel = byModel,
          r_byTemperature = map temperatureResult (groupBy s_temperature ss)\<rparr>"
proof -
  obtain rs where "forEachModel (groupBy s_modelId ss) = Inr rs"
    using forEachModel_total[of "groupBy s_modelId ss"] groupBy_nonempty by blast
  then show ?thesis by (simp add: generateResults_def Let_def)
qed

lemma generateResults_Nil:
  "generateResults e [] =
     Inr \<lparr>r_experimentId = e_id e, r_totalSamples = 0, r_uniqueWords = 0, r_topWords = [],
          r_entropy = 0, r_byModel = [], r_byTemperature = []\<rparr>"
  by (simp add: generateResults_def wordCounts_def frequencies_def entropyOf_def groupBy_def)

text \<open>
  C8. For a non-empty sample list \<^verbatim>\<open>generateResults\<close> returns a report whose entropy is
  not negative, is \<open>0\<close> exactly when one distinct word occurs (equivalently, when
  \<^verbatim>\<open>uniqueWords\<close> is 1), and is \<open>log\<^sub>2 k\<close> when each of the \<open>k\<close> distinct words occurs the
  same number of times. Numbers are reals here, so the last equality is exact.
\<close>

theorem C8_entropy:
  assumes "ss \<noteq> []"
  shows "\<exists>res. generateResults e ss = Inr res
           \<and> 0 \<le> r_entropy res
           \<and> (r_entropy res = 0 \<longleftrightarrow> card (s_word ` set ss) = 1)
           \<and> (r_entropy res = 0 \<longleftrightarrow> r_uniqueWords res = 1)
           \<and> (\<forall>c. (\<forall>w \<in> s_word ` set ss. count_list (map s_word ss) w = c)
                 \<longrightarrow> r_entropy res = log 2 (real (card (s_word ` set ss))))"
proof -
  obtain res where res: "generateResults e ss = Inr res"
    and ent: "r_entropy res = entropyOf (frequencies (wordCounts ss) (length ss))"
    and uniq: "r_uniqueWords res = length (wordCounts ss)"
    using generateResults_total[of e ss] by auto
  have a: "0 \<le> r_entropy res" by (simp add: ent entropy_nonneg)
  have b: "r_entropy res = 0 \<longleftrightarrow> card (s_word ` set ss) = 1"
    using entropy_zero_iff[OF assms] by (simp add: ent wordCounts_length)
  have b': "r_entropy res = 0 \<longleftrightarrow> r_uniqueWords res = 1"
    using entropy_zero_iff[OF assms] by (simp add: ent uniq)
  have c: "r_entropy res = log 2 (real (card (s_word ` set ss)))"
    if h: "\<forall>w \<in> s_word ` set ss. count_list (map s_word ss) w = c" for c
  proof -
    have "\<forall>x \<in> set (wordCounts ss). snd x = c"
    proof
      fix x assume x: "x \<in> set (wordCounts ss)"
      obtain w n where wn: "x = (w, n)" by (cases x)
      with x have "w \<in> s_word ` set ss"
        using wordCounts_keys[of ss] by force
      moreover from x wn have "n = count_list (map s_word ss) w"
        by (simp add: wordCounts_count)
      ultimately show "snd x = c" using h wn by simp
    qed
    from entropy_uniform[OF assms this] show ?thesis
      by (simp add: ent wordCounts_length)
  qed
  from res a b b' c show ?thesis by blast
qed

theorem C8_entropy_witness:
  "\<exists>res. generateResults exampleExperiment [exampleSample ''yes'', exampleSample ''no''] = Inr res
         \<and> 0 \<le> r_entropy res \<and> r_entropy res \<noteq> 0 \<and> r_uniqueWords res = 2 \<and> r_entropy res = 1"
proof -
  let ?ss = "[exampleSample ''yes'', exampleSample ''no'']"
  have ne: "?ss \<noteq> []" by simp
  have card2: "card (s_word ` set ?ss) = 2" by (simp add: exampleSample_def)
  have uni: "\<forall>w \<in> s_word ` set ?ss. count_list (map s_word ?ss) w = 1"
    by (simp add: exampleSample_def)
  from C8_entropy[OF ne, of exampleExperiment] obtain res where
    r: "generateResults exampleExperiment ?ss = Inr res" "0 \<le> r_entropy res"
       "r_entropy res = 0 \<longleftrightarrow> card (s_word ` set ?ss) = 1"
       "r_entropy res = 0 \<longleftrightarrow> r_uniqueWords res = 1"
       "\<forall>c. (\<forall>w \<in> s_word ` set ?ss. count_list (map s_word ?ss) w = c)
            \<longrightarrow> r_entropy res = log 2 (real (card (s_word ` set ?ss)))"
    by blast
  from r(5) uni have "r_entropy res = log 2 (real (card (s_word ` set ?ss)))" by blast
  then have e1: "r_entropy res = 1" unfolding card2 by simp
  have u2: "r_uniqueWords res = 2"
    using r(1) by (auto simp: generateResults_def Let_def wordCounts_def exampleSample_def groupBy_def modelResult_def)
  from r(1,2) e1 u2 show ?thesis by auto
qed



section \<open>Terminal transitions and the results report\<close>

lemma completeExperiment_saves:
  assumes "runningExperiments w i = Some a" and "e_id (re_experiment (heap w a)) = i"
  shows "\<exists>res. completeExperiment i w =
           (Inr (), deleteRunning i (saveResults res
              (saveExperiment ((re_experiment (heap w a))
                  \<lparr>e_status := completed,
                   e_actualCost := Some (actualCostOf (re_samples (heap w a))),
                   e_progress := Some 100\<rparr>)
                (setObject a ((heap w a)\<lparr>re_experiment := (re_experiment (heap w a))
                  \<lparr>e_status := completed,
                   e_actualCost := Some (actualCostOf (re_samples (heap w a))),
                   e_progress := Some 100\<rparr>\<rparr>) w))))
         \<and> r_experimentId res = i \<and> r_totalSamples res = length (re_samples (heap w a))"
proof -
  let ?e = "(re_experiment (heap w a))
                  \<lparr>e_status := completed,
                   e_actualCost := Some (actualCostOf (re_samples (heap w a))),
                   e_progress := Some 100\<rparr>"
  obtain res where res: "generateResults ?e (re_samples (heap w a)) = Inr res"
    "r_experimentId res = e_id ?e" "r_totalSamples res = length (re_samples (heap w a))"
    using generateResults_total[of ?e "re_samples (heap w a)"] by auto
  then show ?thesis using assms
    by (auto simp: completeExperiment_def Let_def)
qed

lemma handleError_some:
  assumes "runningExperiments w i = Some a" and "e_id (re_experiment (heap w a)) = i"
    and "re_samples (heap w a) \<noteq> []"
  shows "\<exists>res. savedResults (snd (handleError i w)) i = Some res
            \<and> r_totalSamples res = length (re_samples (heap w a))"
proof -
  let ?e = "(re_experiment (heap w a))
                  \<lparr>e_status := failed,
                   e_actualCost := Some (actualCostOf (re_samples (heap w a)))\<rparr>"
  obtain res where res: "generateResults ?e (re_samples (heap w a)) = Inr res"
    "r_experimentId res = e_id ?e" "r_totalSamples res = length (re_samples (heap w a))"
    using generateResults_total[of ?e "re_samples (heap w a)"] by auto
  then show ?thesis using assms
    by (auto simp: handleError_def Let_def deleteRunning_def saveResults_def)
qed

lemma abort_some:
  assumes "runningExperiments w i = Some a" and "e_id (re_experiment (heap w a)) = i"
    and "re_samples (heap w a) \<noteq> []"
  shows "\<exists>res. savedResults (snd (abort i w)) i = Some res
            \<and> r_totalSamples res = length (re_samples (heap w a))"
proof -
  let ?e = "(re_experiment (heap w a))
                  \<lparr>e_status := cancelled,
                   e_actualCost := Some (actualCostOf (re_samples (heap w a)))\<rparr>"
  obtain res where res: "generateResults ?e (re_samples (heap w a)) = Inr res"
    "r_experimentId res = e_id ?e" "r_totalSamples res = length (re_samples (heap w a))"
    using generateResults_total[of ?e "re_samples (heap w a)"] by auto
  then show ?thesis using assms
    by (auto simp: abort_def Let_def deleteRunning_def saveResults_def)
qed

lemma handleError_none:
  assumes "runningExperiments w i = Some a" and "re_samples (heap w a) = []"
  shows "savedResults (snd (handleError i w)) = savedResults w"
  using assms by (simp add: handleError_def Let_def deleteRunning_def saveExperiment_def setObject_def)

lemma abort_none:
  assumes "runningExperiments w i = Some a" and "re_samples (heap w a) = []"
  shows "savedResults (snd (abort i w)) = savedResults w"
  using assms by (simp add: abort_def Let_def deleteRunning_def saveExperiment_def setObject_def)

lemma handleError_status:
  assumes "runningExperiments w i = Some a" and "e_id (re_experiment (heap w a)) = i"
  shows "map_option e_status (savedExperiments (snd (handleError i w)) i) = Some failed"
proof -
  let ?e = "(re_experiment (heap w a))
                  \<lparr>e_status := failed,
                   e_actualCost := Some (actualCostOf (re_samples (heap w a)))\<rparr>"
  obtain res where res: "generateResults ?e (re_samples (heap w a)) = Inr res"
    using generateResults_total[of ?e "re_samples (heap w a)"] by auto
  then show ?thesis using assms
    by (auto simp: handleError_def Let_def deleteRunning_def saveResults_def saveExperiment_def setObject_def)
qed

lemma abort_status:
  assumes "runningExperiments w i = Some a" and "e_id (re_experiment (heap w a)) = i"
  shows "map_option e_status (savedExperiments (snd (abort i w)) i) = Some cancelled"
proof -
  let ?e = "(re_experiment (heap w a))
                  \<lparr>e_status := cancelled,
                   e_actualCost := Some (actualCostOf (re_samples (heap w a)))\<rparr>"
  obtain res where res: "generateResults ?e (re_samples (heap w a)) = Inr res"
    using generateResults_total[of ?e "re_samples (heap w a)"] by auto
  then show ?thesis using assms
    by (auto simp: abort_def Let_def deleteRunning_def saveResults_def saveExperiment_def setObject_def)
qed

lemma completeExperiment_status:
  assumes "runningExperiments w i = Some a" and "e_id (re_experiment (heap w a)) = i"
  shows "map_option e_status (savedExperiments (snd (completeExperiment i w)) i) = Some completed"
  using completeExperiment_saves[OF assms] assms
  by (auto simp: deleteRunning_def saveResults_def saveExperiment_def setObject_def)

lemma completeExperiment_results:
  assumes "runningExperiments w i = Some a" and "e_id (re_experiment (heap w a)) = i"
  shows "\<exists>res. savedResults (snd (completeExperiment i w)) i = Some res
            \<and> r_totalSamples res = length (re_samples (heap w a))"
  using completeExperiment_saves[OF assms]
  by (auto simp: deleteRunning_def saveResults_def saveExperiment_def setObject_def)

lemma start_example:
  "start exampleExperiment exampleKeys emptyWorld =
     (Inr 0, saveExperiment (exampleExperiment\<lparr>e_status := running\<rparr>)
        ((setObject 0 \<lparr>re_experiment = exampleExperiment\<lparr>e_status := running\<rparr>,
             re_aborted = False, re_progress = initialProgress exampleExperiment,
             re_samples = []\<rparr> emptyWorld)
           \<lparr>nextRef := Suc 0, runningExperiments := [''exp-1'' \<mapsto> 0]\<rparr>))"
  by (simp add: start_def emptyWorld_def exampleExperiment_def exampleKeys_def missingKeys_def
      requiredProviders_def findModelById_def PROVIDER_DATA_def anthropic_models_def
      openai_models_def kimi_models_def mkModel_def setAdd_def hasKey_def Let_def)

text \<open>
  C1, as the code has it. Aggregating no samples gives the zero report and raises nothing.
  For an experiment registered under its id: \<^verbatim>\<open>completeExperiment\<close> sets the status
  \<^verbatim>\<open>completed\<close> and always persists a report, also over zero samples;
  \<^verbatim>\<open>handleError\<close> (status \<^verbatim>\<open>failed\<close>) and \<^verbatim>\<open>abort\<close> (status \<^verbatim>\<open>cancelled\<close>) persist a
  report when at least one sample was collected, and leave the results store untouched
  when none was.
\<close>

theorem C1_results_report:
  assumes "runningExperiments w i = Some a" and "e_id (re_experiment (heap w a)) = i"
  shows "generateResults e [] =
           Inr \<lparr>r_experimentId = e_id e, r_totalSamples = 0, r_uniqueWords = 0, r_topWords = [],
                r_entropy = 0, r_byModel = [], r_byTemperature = []\<rparr>
       \<and> map_option e_status (savedExperiments (snd (completeExperiment i w)) i) = Some completed
       \<and> (\<exists>res. savedResults (snd (completeExperiment i w)) i = Some res
              \<and> r_totalSamples res = length (re_samples (heap w a)))
       \<and> map_option e_status (savedExperiments (snd (handleError i w)) i) = Some failed
       \<and> map_option e_status (savedExperiments (snd (abort i w)) i) = Some cancelled
       \<and> (re_samples (heap w a) \<noteq> [] \<longrightarrow>
            (\<exists>res. savedResults (snd (handleError i w)) i = Some res
               \<and> r_totalSamples res = length (re_samples (heap w a)))
          \<and> (\<exists>res. savedResults (snd (abort i w)) i = Some res
               \<and> r_totalSamples res = length (re_samples (heap w a))))
       \<and> (re_samples (heap w a) = [] \<longrightarrow>
            savedResults (snd (handleError i w)) = savedResults w
          \<and> savedResults (snd (abort i w)) = savedResults w)"
  using generateResults_Nil[of e] completeExperiment_status[OF assms]
    completeExperiment_results[OF assms] handleError_status[OF assms] abort_status[OF assms]
    handleError_some[OF assms] abort_some[OF assms] handleError_none[OF assms(1)]
    abort_none[OF assms(1)]
  by blast

text \<open>The claim as stated fails for an experiment that is cancelled, or fails, before its
  first sample: the status is saved and no report is.\<close>

theorem C1_counterexample:
  "re_samples (heap (snd (start exampleExperiment exampleKeys emptyWorld)) 0) = []
   \<and> map_option e_status
        (savedExperiments (snd (abort ''exp-1'' (snd (start exampleExperiment exampleKeys emptyWorld))))
           ''exp-1'') = Some cancelled
   \<and> savedResults (snd (abort ''exp-1'' (snd (start exampleExperiment exampleKeys emptyWorld))))
        ''exp-1'' = None
   \<and> map_option e_status
        (savedExperiments (snd (handleError ''exp-1'' (snd (start exampleExperiment exampleKeys emptyWorld))))
           ''exp-1'') = Some failed
   \<and> savedResults (snd (handleError ''exp-1'' (snd (start exampleExperiment exampleKeys emptyWorld))))
        ''exp-1'' = None"
  unfolding start_example
  by (simp add: abort_def handleError_def Let_def saveExperiment_def setObject_def
      deleteRunning_def emptyWorld_def exampleExperiment_def)

theorem C1_results_report_witness:
  "map_option e_status
     (savedExperiments (snd (completeExperiment ''exp-1''
        (snd (start exampleExperiment exampleKeys emptyWorld)))) ''exp-1'') = Some completed
   \<and> (\<exists>res. savedResults (snd (completeExperiment ''exp-1''
        (snd (start exampleExperiment exampleKeys emptyWorld)))) ''exp-1'' = Some res
        \<and> r_totalSamples res = 0)
   \<and> savedResults (snd (abort ''exp-1'' (snd (start exampleExperiment exampleKeys emptyWorld))))
        = Map.empty"
proof -
  let ?w = "snd (start exampleExperiment exampleKeys emptyWorld)"
  have reg: "runningExperiments ?w ''exp-1'' = Some 0"
    unfolding start_example by (simp add: saveExperiment_def)
  have idx: "e_id (re_experiment (heap ?w 0)) = ''exp-1''"
    unfolding start_example by (simp add: saveExperiment_def setObject_def exampleExperiment_def)
  have emp: "re_samples (heap ?w 0) = []"
    unfolding start_example by (simp add: saveExperiment_def setObject_def)
  have sr: "savedResults ?w = Map.empty"
    unfolding start_example by (simp add: saveExperiment_def setObject_def emptyWorld_def)
  from C1_results_report[OF reg idx, of exampleExperiment] emp sr show ?thesis
    by simp
qed

section \<open>The sampling loops\<close>

subsection \<open>What \<^verbatim>\<open>abort\<close> leaves alone\<close>

lemma abort_heap:
  "heap (snd (abort i w)) a =
     (case runningExperiments w i of
        None \<Rightarrow> heap w a
      | Some a' \<Rightarrow>
          if a = a' then (heap w a)\<lparr>re_aborted := True,
              re_experiment := (re_experiment (heap w a))
                 \<lparr>e_status := cancelled,
                  e_actualCost := Some (actualCostOf (re_samples (heap w a)))\<rparr>\<rparr>
          else heap w a)"
  by (auto simp: abort_def Let_def saveExperiment_def setObject_def deleteRunning_def
      saveResults_def split: option.splits sum.splits)

lemma abort_calls: "calls (snd (abort i w)) = calls w"
  by (auto simp: abort_def Let_def saveExperiment_def setObject_def deleteRunning_def
      saveResults_def split: option.splits sum.splits)

lemma abort_progressUpdates: "progressUpdates (snd (abort i w)) = progressUpdates w"
  by (auto simp: abort_def Let_def saveExperiment_def setObject_def deleteRunning_def
      saveResults_def split: option.splits sum.splits)

lemma abort_fixedPart: "fixedPart (heap (snd (abort i w)) a) = fixedPart (heap w a)"
  by (simp add: abort_heap fixedPart_def split: option.splits)

lemma abort_progress: "re_progress (heap (snd (abort i w)) a) = re_progress (heap w a)"
  by (simp add: abort_heap split: option.splits)

lemma abort_samples: "re_samples (heap (snd (abort i w)) a) = re_samples (heap w a)"
  by (simp add: abort_heap split: option.splits)

lemma abort_id: "e_id (re_experiment (heap (snd (abort i w)) a)) = e_id (re_experiment (heap w a))"
  by (simp add: abort_heap split: option.splits)

subsection \<open>Progress of a task, with or without an abort\<close>

lemma fixedPart_fields:
  "fixedPart r = fixedPart r' \<Longrightarrow>
     e_id (re_experiment r) = e_id (re_experiment r')
   \<and> e_stimulus (re_experiment r) = e_stimulus (re_experiment r')
   \<and> e_selectedModels (re_experiment r) = e_selectedModels (re_experiment r')
   \<and> e_configs (re_experiment r) = e_configs (re_experiment r')
   \<and> e_samplesPerConfig (re_experiment r) = e_samplesPerConfig (re_experiment r')
   \<and> rp_totalCalls (re_progress r) = rp_totalCalls (re_progress r')"
  by (simp add: fixedPart_def)

lemma progressesI:
  assumes "fixedPart (heap w' a) = fixedPart (heap w a)"
    and "completedCalls a w \<le> completedCalls a w'"
    and "completedCalls a w' \<le> completedCalls a w + k"
    and "re_samples (heap w' a) = re_samples (heap w a) @ ss"
    and "\<forall>s \<in> set ss. s_modelId s \<in> S"
    and "progressUpdates w' = progressUpdates w @ us"
    and "sorted (map (\<lambda>u. rp_completedCalls (snd u)) us)"
    and "\<forall>u \<in> set us.
                completedCalls a w < rp_completedCalls (snd u)
              \<and> rp_completedCalls (snd u) \<le> completedCalls a w'
              \<and> rp_totalCalls (snd u) = rp_totalCalls (re_progress (heap w a))
              \<and> fst u = e_id (re_experiment (heap w a))"
  shows "progresses a S k w w'"
  unfolding progresses_def
  apply (intro conjI)
      apply (rule assms(1))
     apply (rule assms(2))
    apply (rule assms(3))
   apply (rule exI[of _ ss])
   apply (intro conjI)
    apply (rule assms(4))
   apply (rule assms(5))
  apply (rule exI[of _ us])
  apply (intro conjI)
    apply (rule assms(6))
   apply (rule assms(7))
  apply (rule assms(8))
  done

lemma progressesE:
  assumes "progresses a S k w w'"
  obtains ss us where "fixedPart (heap w' a) = fixedPart (heap w a)"
    and "completedCalls a w \<le> completedCalls a w'"
    and "completedCalls a w' \<le> completedCalls a w + k"
    and "re_samples (heap w' a) = re_samples (heap w a) @ ss"
    and "\<forall>s \<in> set ss. s_modelId s \<in> S"
    and "progressUpdates w' = progressUpdates w @ us"
    and "sorted (map (\<lambda>u. rp_completedCalls (snd u)) us)"
    and "\<forall>u \<in> set us.
                completedCalls a w < rp_completedCalls (snd u)
              \<and> rp_completedCalls (snd u) \<le> completedCalls a w'
              \<and> rp_totalCalls (snd u) = rp_totalCalls (re_progress (heap w a))
              \<and> fst u = e_id (re_experiment (heap w a))"
  using assms unfolding progresses_def by (elim conjE exE) (rule that)

lemma progresses_refl: "progresses a S 0 w w"
  by (rule progressesI[where ss = "[]" and us = "[]"]) simp_all

lemma progresses_mono:
  assumes "progresses a S k w w'" and "k \<le> k'" and "S \<subseteq> S'"
  shows "progresses a S' k' w w'"
proof -
  from assms(1) obtain ss us where
    f: "fixedPart (heap w' a) = fixedPart (heap w a)"
    and c: "completedCalls a w \<le> completedCalls a w'" "completedCalls a w' \<le> completedCalls a w + k"
    and s: "re_samples (heap w' a) = re_samples (heap w a) @ ss" "\<forall>s \<in> set ss. s_modelId s \<in> S"
    and u: "progressUpdates w' = progressUpdates w @ us"
            "sorted (map (\<lambda>u. rp_completedCalls (snd u)) us)"
            "\<forall>u \<in> set us. completedCalls a w < rp_completedCalls (snd u)
              \<and> rp_completedCalls (snd u) \<le> completedCalls a w'
              \<and> rp_totalCalls (snd u) = rp_totalCalls (re_progress (heap w a))
              \<and> fst u = e_id (re_experiment (heap w a))"
    by (rule progressesE)
  have c': "completedCalls a w' \<le> completedCalls a w + k'" using c(2) assms(2) by linarith
  have s': "\<forall>s \<in> set ss. s_modelId s \<in> S'" using s(2) assms(3) by blast
  show ?thesis by (rule progressesI[OF f c(1) c' s(1) s' u])
qed

lemma progresses_stay: "progresses a S k w w"
  by (rule progresses_mono[OF progresses_refl[of a S w]]) simp_all

lemma progresses_trans:
  assumes "progresses a S k1 w w1" and "progresses a S k2 w1 w2"
  shows "progresses a S (k1 + k2) w w2"
proof -
  from assms(1) obtain ss1 us1 where
    f1: "fixedPart (heap w1 a) = fixedPart (heap w a)"
    and c1: "completedCalls a w \<le> completedCalls a w1" "completedCalls a w1 \<le> completedCalls a w + k1"
    and s1: "re_samples (heap w1 a) = re_samples (heap w a) @ ss1" "\<forall>s \<in> set ss1. s_modelId s \<in> S"
    and u1: "progressUpdates w1 = progressUpdates w @ us1"
            "sorted (map (\<lambda>u. rp_completedCalls (snd u)) us1)"
            "\<forall>u \<in> set us1. completedCalls a w < rp_completedCalls (snd u)
              \<and> rp_completedCalls (snd u) \<le> completedCalls a w1
              \<and> rp_totalCalls (snd u) = rp_totalCalls (re_progress (heap w a))
              \<and> fst u = e_id (re_experiment (heap w a))"
    by (rule progressesE)
  from assms(2) obtain ss2 us2 where
    f2: "fixedPart (heap w2 a) = fixedPart (heap w1 a)"
    and c2: "completedCalls a w1 \<le> completedCalls a w2" "completedCalls a w2 \<le> completedCalls a w1 + k2"
    and s2: "re_samples (heap w2 a) = re_samples (heap w1 a) @ ss2" "\<forall>s \<in> set ss2. s_modelId s \<in> S"
    and u2: "progressUpdates w2 = progressUpdates w1 @ us2"
            "sorted (map (\<lambda>u. rp_completedCalls (snd u)) us2)"
            "\<forall>u \<in> set us2. completedCalls a w1 < rp_completedCalls (snd u)
              \<and> rp_completedCalls (snd u) \<le> completedCalls a w2
              \<and> rp_totalCalls (snd u) = rp_totalCalls (re_progress (heap w1 a))
              \<and> fst u = e_id (re_experiment (heap w1 a))"
    by (rule progressesE)
  note ff = fixedPart_fields[OF f1]
  have A: "fixedPart (heap w2 a) = fixedPart (heap w a)" using f1 f2 by simp
  have B: "completedCalls a w \<le> completedCalls a w2" using c1 c2 by linarith
  have C: "completedCalls a w2 \<le> completedCalls a w + (k1 + k2)" using c1 c2 by linarith
  have D1: "re_samples (heap w2 a) = re_samples (heap w a) @ (ss1 @ ss2)"
    using s1 s2 by simp
  have D2: "\<forall>s \<in> set (ss1 @ ss2). s_modelId s \<in> S"
    using s1 s2 by auto
  have E1: "progressUpdates w2 = progressUpdates w @ (us1 @ us2)" using u1 u2 by simp
  have cross: "rp_completedCalls (snd x) \<le> rp_completedCalls (snd y)"
    if "x \<in> set us1" "y \<in> set us2" for x y
  proof -
    from that u1(3) have "rp_completedCalls (snd x) \<le> completedCalls a w1" by blast
    moreover from that u2(3) have "completedCalls a w1 < rp_completedCalls (snd y)" by blast
    ultimately show ?thesis by linarith
  qed
  have E2: "sorted (map (\<lambda>u. rp_completedCalls (snd u)) (us1 @ us2))"
    using u1(2) u2(2) cross by (simp add: sorted_append)
  have E3: "\<forall>u \<in> set (us1 @ us2). completedCalls a w < rp_completedCalls (snd u)
              \<and> rp_completedCalls (snd u) \<le> completedCalls a w2
              \<and> rp_totalCalls (snd u) = rp_totalCalls (re_progress (heap w a))
              \<and> fst u = e_id (re_experiment (heap w a))"
  proof
    fix u assume "u \<in> set (us1 @ us2)"
    then consider "u \<in> set us1" | "u \<in> set us2" by auto
    then show "completedCalls a w < rp_completedCalls (snd u)
              \<and> rp_completedCalls (snd u) \<le> completedCalls a w2
              \<and> rp_totalCalls (snd u) = rp_totalCalls (re_progress (heap w a))
              \<and> fst u = e_id (re_experiment (heap w a))"
    proof cases
      case 1
      with u1(3) have "completedCalls a w < rp_completedCalls (snd u)"
        "rp_completedCalls (snd u) \<le> completedCalls a w1"
        "rp_totalCalls (snd u) = rp_totalCalls (re_progress (heap w a))"
        "fst u = e_id (re_experiment (heap w a))" by blast+
      with c2 show ?thesis by simp
    next
      case 2
      with u2(3) have "completedCalls a w1 < rp_completedCalls (snd u)"
        "rp_completedCalls (snd u) \<le> completedCalls a w2"
        "rp_totalCalls (snd u) = rp_totalCalls (re_progress (heap w1 a))"
        "fst u = e_id (re_experiment (heap w1 a))" by blast+
      with c1 ff show ?thesis by simp
    qed
  qed
  show ?thesis by (rule progressesI[OF A B C D1 D2 E1 E2 E3])
qed

lemma trySample_progresses:
  "progresses a {modelId} 1 w (trySample oracle a providerId modelId config w)"
proof -
  define ev where "ev = oracle (calls w)"
  define w1 where "w1 = w\<lparr>calls := Suc (calls w)\<rparr>"
  define w2 where "w2 = (if ev_abort ev then snd (abort (e_id (re_experiment (heap w1 a))) w1) else w1)"
  have w2: "fixedPart (heap w2 a) = fixedPart (heap w a)"
    "re_progress (heap w2 a) = re_progress (heap w a)"
    "re_samples (heap w2 a) = re_samples (heap w a)"
    "progressUpdates w2 = progressUpdates w"
    "e_id (re_experiment (heap w2 a)) = e_id (re_experiment (heap w a))"
    by (simp_all add: w2_def w1_def abort_fixedPart abort_progress abort_samples
        abort_progressUpdates abort_id)
  have stay: "progresses a {modelId} 1 w w2"
    using w2 by (simp add: progresses_def completedCalls_def)
  show ?thesis
  proof (cases "okWord ev")
    case None
    then have "trySample oracle a providerId modelId config w = w2"
      by (auto simp: trySample_def Let_def ev_def w1_def w2_def okWord_def split: sum.splits if_splits)
    with stay show ?thesis by simp
  next
    case (Some word)
    define sample where "sample = newSample (re_experiment (heap w2 a)) providerId modelId config word"
    define w4 where "w4 = setObject a (recordSample sample (heap (saveSample sample w2) a)) (saveSample sample w2)"
    from Some have t: "trySample oracle a providerId modelId config w =
        onProgressUpdate (e_id (re_experiment (heap w2 a))) (re_progress (heap w4 a)) w4"
      by (auto simp: trySample_def Let_def ev_def w1_def w2_def okWord_def w4_def sample_def
          split: sum.splits if_splits)
    have h4: "heap w4 a = recordSample sample (heap w2 a)"
      by (simp add: w4_def setObject_def saveSample_def)
    have p4: "progressUpdates w4 = progressUpdates w"
      by (simp add: w4_def setObject_def saveSample_def w2)
    have sm: "s_modelId sample = modelId" by (simp add: sample_def newSample_def)
    show ?thesis
      unfolding t progresses_def
      using w2 sm
      by (simp add: onProgressUpdate_def h4 p4 recordSample_def completedCalls_def fixedPart_def)
  qed
qed

lemma progresses_fixed:
  "progresses a S k w w' \<Longrightarrow> fixedPart (heap w' a) = fixedPart (heap w a)"
  by (simp add: progresses_def)

lemma progresses_spc:
  "progresses a S k w w' \<Longrightarrow>
     e_samplesPerConfig (re_experiment (heap w' a)) = e_samplesPerConfig (re_experiment (heap w a))
   \<and> e_configs (re_experiment (heap w' a)) = e_configs (re_experiment (heap w a))"
  using fixedPart_fields[of "heap w' a" "heap w a"] by (simp add: progresses_def)

lemma setCurrentConfig_progresses: "progresses a S 0 w (setCurrentConfig a c w)"
  by (simp add: progresses_def setCurrentConfig_def setObject_def fixedPart_def completedCalls_def)

lemma setCurrentModel_progresses: "progresses a S 0 w (setCurrentModel a n w)"
  by (simp add: progresses_def setCurrentModel_def setObject_def fixedPart_def completedCalls_def)

lemma samplesLoop_progresses:
  "progresses a {modelId} (length idxs) w (samplesLoop oracle a providerId modelId config idxs w)"
proof (induction idxs arbitrary: w)
  case Nil
  show ?case by (simp add: progresses_refl)
next
  case (Cons i rest)
  show ?case
  proof (cases "re_aborted (heap w a)")
    case True
    then show ?thesis by (simp add: progresses_stay)
  next
    case False
    have "progresses a {modelId} (1 + length rest) w
            (samplesLoop oracle a providerId modelId config rest
               (trySample oracle a providerId modelId config w))"
      by (rule progresses_trans[OF trySample_progresses Cons.IH])
    with False show ?thesis by simp
  qed
qed

lemma executeSamplesForConfig_progresses:
  "progresses a {modelId} (e_samplesPerConfig (re_experiment (heap w a))) w
     (executeSamplesForConfig oracle a providerId modelId config w)"
  using samplesLoop_progresses[of a modelId "[0 ..< e_samplesPerConfig (re_experiment (heap w a))]"
      w "oracle" providerId config]
  by (simp add: executeSamplesForConfig_def)

lemma configsLoop_progresses:
  "progresses a {modelId} (length cs * e_samplesPerConfig (re_experiment (heap w a))) w
     (configsLoop oracle a providerId modelId cs w)"
proof (induction cs arbitrary: w)
  case Nil
  show ?case by (simp add: progresses_refl)
next
  case (Cons c rest)
  let ?spc = "e_samplesPerConfig (re_experiment (heap w a))"
  show ?case
  proof (cases "re_aborted (heap w a)")
    case True
    then show ?thesis by (simp add: progresses_stay)
  next
    case False
    define w1 where "w1 = setCurrentConfig a c w"
    define w2 where "w2 = executeSamplesForConfig oracle a providerId modelId c w1"
    have p1: "progresses a {modelId} 0 w w1"
      unfolding w1_def by (rule setCurrentConfig_progresses)
    have s1: "e_samplesPerConfig (re_experiment (heap w1 a)) = ?spc"
      using progresses_spc[OF p1] by simp
    have p2: "progresses a {modelId} ?spc w1 w2"
      using executeSamplesForConfig_progresses[of a modelId w1 "oracle" providerId c]
      by (simp add: w2_def s1)
    have s2: "e_samplesPerConfig (re_experiment (heap w2 a)) = ?spc"
      using progresses_spc[OF p2] s1 by simp
    have p3: "progresses a {modelId} (length rest * ?spc) w2
                (configsLoop oracle a providerId modelId rest w2)"
      using Cons.IH[of w2] by (simp add: s2)
    have "progresses a {modelId} (0 + ?spc + length rest * ?spc) w
            (configsLoop oracle a providerId modelId rest w2)"
      by (rule progresses_trans[OF progresses_trans[OF p1 p2] p3])
    with False show ?thesis by (simp add: w1_def w2_def)
  qed
qed

lemma modelsLoop_progresses:
  "progresses a {m \<in> set ms. runnable apiKeys m}
     (length (filter (runnable apiKeys) ms)
        * (length (e_configs (re_experiment (heap w a)))
            * e_samplesPerConfig (re_experiment (heap w a)))) w
     (modelsLoop oracle a apiKeys ms w)"
proof (induction ms arbitrary: w)
  case Nil
  show ?case by (simp add: progresses_refl)
next
  case (Cons modelId rest)
  let ?per = "length (e_configs (re_experiment (heap w a)))
            * e_samplesPerConfig (re_experiment (heap w a))"
  let ?S = "{m \<in> set (modelId # rest). runnable apiKeys m}"
  let ?k = "length (filter (runnable apiKeys) (modelId # rest)) * ?per"
  have sub: "{m \<in> set rest. runnable apiKeys m} \<subseteq> ?S" by auto
  show ?case
  proof (cases "re_aborted (heap w a)")
    case True
    then show ?thesis by (simp add: progresses_stay)
  next
    case False
    show ?thesis
    proof (cases "runnable apiKeys modelId")
      case no: False
      then have skip: "modelsLoop oracle a apiKeys (modelId # rest) w = modelsLoop oracle a apiKeys rest w"
        using False by (auto simp: runnable_def split: option.splits)
      have "progresses a ?S (length (filter (runnable apiKeys) rest) * ?per) w
              (modelsLoop oracle a apiKeys rest w)"
        by (rule progresses_mono[OF Cons.IH[of w] le_refl sub])
      with no skip show ?thesis by simp
    next
      case yes: True
      then obtain model where model: "findModelById modelId = Some model"
        "hasKey apiKeys (m_providerId model)"
        by (auto simp: runnable_def split: option.splits)
      define w1 where "w1 = setCurrentModel a (m_name model) w"
      define w2 where "w2 = configsLoop oracle a (m_providerId model) modelId
                              (e_configs (re_experiment (heap w a))) w1"
      have step: "modelsLoop oracle a apiKeys (modelId # rest) w = modelsLoop oracle a apiKeys rest w2"
        using False model by (simp add: w1_def w2_def)
      have p1: "progresses a ?S 0 w w1"
        unfolding w1_def by (rule setCurrentModel_progresses)
      have f1: "e_samplesPerConfig (re_experiment (heap w1 a)) = e_samplesPerConfig (re_experiment (heap w a))"
        "e_configs (re_experiment (heap w1 a)) = e_configs (re_experiment (heap w a))"
        using progresses_spc[OF p1] by simp_all
      have "progresses a {modelId} ?per w1 w2"
        using configsLoop_progresses[of a modelId "e_configs (re_experiment (heap w a))" w1 "oracle"
            "m_providerId model"]
        by (simp add: w2_def f1)
      then have p2: "progresses a ?S ?per w1 w2"
        by (rule progresses_mono) (use yes in auto)
      have f2: "e_samplesPerConfig (re_experiment (heap w2 a)) = e_samplesPerConfig (re_experiment (heap w a))"
        "e_configs (re_experiment (heap w2 a)) = e_configs (re_experiment (heap w a))"
        using progresses_spc[OF p2] f1 by simp_all
      have p3: "progresses a ?S (length (filter (runnable apiKeys) rest) * ?per) w2
                  (modelsLoop oracle a apiKeys rest w2)"
        using progresses_mono[OF Cons.IH[of w2] le_refl sub] by (simp add: f2)
      have "progresses a ?S (0 + ?per + length (filter (runnable apiKeys) rest) * ?per) w
              (modelsLoop oracle a apiKeys rest w2)"
        by (rule progresses_trans[OF progresses_trans[OF p1 p2] p3])
      with yes step show ?thesis by simp
    qed
  qed
qed

subsection \<open>A task that is not aborted issues every planned call\<close>

lemma okWords_0: "okWords orc c 0 = []"
  by (simp add: okWords_def map_filter_simps)

lemma okWords_1:
  "okWords orc c (Suc 0) = (case okWord (orc c) of None \<Rightarrow> [] | Some word \<Rightarrow> [word])"
  by (simp add: okWords_def map_filter_simps split: option.splits)

lemma map_filter_append: "List.map_filter f (xs @ ys) = List.map_filter f xs @ List.map_filter f ys"
  by (simp add: map_filter_def)

lemma okWords_add: "okWords orc c (k1 + k2) = okWords orc c k1 @ okWords orc (c + k1) k2"
proof -
  have "[c ..< c + (k1 + k2)] = [c ..< c + k1] @ [c + k1 ..< c + k1 + k2]"
    by (metis add.assoc upt_add_eq_append le_add1)
  then show ?thesis by (simp add: okWords_def map_filter_append)
qed

lemma advances_refl: "\<not> re_aborted (heap w a) \<Longrightarrow> advances orc a 0 w w"
  by (simp add: advances_def okWords_0)

lemma advances_trans:
  assumes "advances orc a k1 w w1" and "advances orc a k2 w1 w2"
  shows "advances orc a (k1 + k2) w w2"
  using assms unfolding advances_def by (simp add: okWords_add)

lemma advances_not_aborted: "advances orc a k w w' \<Longrightarrow> \<not> re_aborted (heap w' a)"
  by (simp add: advances_def)

lemma advances_fields:
  "advances orc a k w w' \<Longrightarrow>
     e_samplesPerConfig (re_experiment (heap w' a)) = e_samplesPerConfig (re_experiment (heap w a))
   \<and> e_configs (re_experiment (heap w' a)) = e_configs (re_experiment (heap w a))
   \<and> e_id (re_experiment (heap w' a)) = e_id (re_experiment (heap w a))"
  using fixedPart_fields[of "heap w' a" "heap w a"] by (simp add: advances_def)

lemma trySample_advances:
  assumes "\<not> ev_abort (orc (calls w))" and "\<not> re_aborted (heap w a)"
  shows "advances orc a 1 w (trySample orc a providerId modelId config w)"
proof (cases "okWord (orc (calls w))")
  case None
  then have "trySample orc a providerId modelId config w = w\<lparr>calls := Suc (calls w)\<rparr>"
    using assms(1) by (auto simp: trySample_def Let_def okWord_def split: sum.splits if_splits)
  with None assms(2) show ?thesis
    by (simp add: advances_def okWords_1 completedCalls_def)
next
  case (Some word)
  then show ?thesis
    using assms
    by (auto simp: trySample_def Let_def okWord_def advances_def okWords_1 completedCalls_def
        onProgressUpdate_def setObject_def saveSample_def recordSample_def fixedPart_def
        newSample_def split: sum.splits if_splits)
qed

lemma setCurrentConfig_advances:
  "\<not> re_aborted (heap w a) \<Longrightarrow> advances orc a 0 w (setCurrentConfig a c w)"
  by (simp add: advances_def setCurrentConfig_def setObject_def fixedPart_def completedCalls_def
      okWords_0)

lemma setCurrentModel_advances:
  "\<not> re_aborted (heap w a) \<Longrightarrow> advances orc a 0 w (setCurrentModel a n w)"
  by (simp add: advances_def setCurrentModel_def setObject_def fixedPart_def completedCalls_def
      okWords_0)

lemma samplesLoop_advances:
  assumes "\<forall>n. \<not> ev_abort (orc n)"
  shows "\<not> re_aborted (heap w a) \<Longrightarrow>
         advances orc a (length idxs) w (samplesLoop orc a providerId modelId config idxs w)"
proof (induction idxs arbitrary: w)
  case Nil
  then show ?case by (simp add: advances_refl)
next
  case (Cons i rest)
  define w1 where "w1 = trySample orc a providerId modelId config w"
  have p1: "advances orc a 1 w w1"
    unfolding w1_def using assms Cons.prems by (intro trySample_advances) simp_all
  have p2: "advances orc a (length rest) w1 (samplesLoop orc a providerId modelId config rest w1)"
    by (rule Cons.IH[OF advances_not_aborted[OF p1]])
  from advances_trans[OF p1 p2] Cons.prems show ?case by (simp add: w1_def)
qed

lemma executeSamplesForConfig_advances:
  assumes "\<forall>n. \<not> ev_abort (orc n)" and "\<not> re_aborted (heap w a)"
  shows "advances orc a (e_samplesPerConfig (re_experiment (heap w a))) w
           (executeSamplesForConfig orc a providerId modelId config w)"
  using samplesLoop_advances[OF assms, of "[0 ..< e_samplesPerConfig (re_experiment (heap w a))]"
      providerId modelId config]
  by (simp add: executeSamplesForConfig_def)

lemma configsLoop_advances:
  assumes "\<forall>n. \<not> ev_abort (orc n)"
  shows "\<not> re_aborted (heap w a) \<Longrightarrow>
         advances orc a (length cs * e_samplesPerConfig (re_experiment (heap w a))) w
           (configsLoop orc a providerId modelId cs w)"
proof (induction cs arbitrary: w)
  case Nil
  then show ?case by (simp add: advances_refl)
next
  case (Cons c rest)
  let ?spc = "e_samplesPerConfig (re_experiment (heap w a))"
  define w1 where "w1 = setCurrentConfig a c w"
  define w2 where "w2 = executeSamplesForConfig orc a providerId modelId c w1"
  have p1: "advances orc a 0 w w1"
    unfolding w1_def using Cons.prems by (rule setCurrentConfig_advances)
  have s1: "e_samplesPerConfig (re_experiment (heap w1 a)) = ?spc"
    using advances_fields[OF p1] by simp
  have p2: "advances orc a ?spc w1 w2"
    using executeSamplesForConfig_advances[OF assms advances_not_aborted[OF p1], of providerId modelId c]
    by (simp add: w2_def s1)
  have s2: "e_samplesPerConfig (re_experiment (heap w2 a)) = ?spc"
    using advances_fields[OF p2] s1 by simp
  have p3: "advances orc a (length rest * ?spc) w2 (configsLoop orc a providerId modelId rest w2)"
    using Cons.IH[OF advances_not_aborted[OF p2]] by (simp add: s2)
  from advances_trans[OF advances_trans[OF p1 p2] p3] Cons.prems
  show ?case by (simp add: w1_def w2_def)
qed

lemma modelsLoop_advances:
  assumes "\<forall>n. \<not> ev_abort (orc n)"
  shows "\<not> re_aborted (heap w a) \<Longrightarrow>
         advances orc a
           (length (filter (runnable apiKeys) ms)
              * (length (e_configs (re_experiment (heap w a)))
                  * e_samplesPerConfig (re_experiment (heap w a)))) w
           (modelsLoop orc a apiKeys ms w)"
proof (induction ms arbitrary: w)
  case Nil
  then show ?case by (simp add: advances_refl)
next
  case (Cons modelId rest)
  let ?per = "length (e_configs (re_experiment (heap w a)))
            * e_samplesPerConfig (re_experiment (heap w a))"
  show ?case
  proof (cases "runnable apiKeys modelId")
    case no: False
    then have skip: "modelsLoop orc a apiKeys (modelId # rest) w = modelsLoop orc a apiKeys rest w"
      using Cons.prems by (auto simp: runnable_def split: option.splits)
    from Cons.IH[OF Cons.prems] no skip show ?thesis by simp
  next
    case yes: True
    then obtain model where model: "findModelById modelId = Some model"
      "hasKey apiKeys (m_providerId model)"
      by (auto simp: runnable_def split: option.splits)
    define w1 where "w1 = setCurrentModel a (m_name model) w"
    define w2 where "w2 = configsLoop orc a (m_providerId model) modelId
                            (e_configs (re_experiment (heap w a))) w1"
    have step: "modelsLoop orc a apiKeys (modelId # rest) w = modelsLoop orc a apiKeys rest w2"
      using Cons.prems model by (simp add: w1_def w2_def)
    have p1: "advances orc a 0 w w1"
      unfolding w1_def using Cons.prems by (rule setCurrentModel_advances)
    have f1: "e_samplesPerConfig (re_experiment (heap w1 a)) = e_samplesPerConfig (re_experiment (heap w a))"
      "e_configs (re_experiment (heap w1 a)) = e_configs (re_experiment (heap w a))"
      using advances_fields[OF p1] by simp_all
    have p2: "advances orc a ?per w1 w2"
      using configsLoop_advances[OF assms advances_not_aborted[OF p1],
          of "e_configs (re_experiment (heap w a))" "m_providerId model" modelId]
      by (simp add: w2_def f1)
    have f2: "e_samplesPerConfig (re_experiment (heap w2 a)) = e_samplesPerConfig (re_experiment (heap w a))"
      "e_configs (re_experiment (heap w2 a)) = e_configs (re_experiment (heap w a))"
      using advances_fields[OF p2] f1 by simp_all
    have p3: "advances orc a (length (filter (runnable apiKeys) rest) * ?per) w2
                (modelsLoop orc a apiKeys rest w2)"
      using Cons.IH[OF advances_not_aborted[OF p2]] by (simp add: f2)
    from advances_trans[OF advances_trans[OF p1 p2] p3] yes step show ?thesis by simp
  qed
qed

section \<open>Starting an experiment\<close>

lemma setAdd_set: "set (setAdd x xs) = insert x (set xs)"
  by (auto simp: setAdd_def)

lemma foldl_required_set:
  "set (foldl (\<lambda>req modelId. case findModelById modelId of None \<Rightarrow> req
                              | Some model \<Rightarrow> setAdd (m_providerId model) req) acc ms)
     = set acc \<union> {p. \<exists>modelId \<in> set ms. \<exists>model. findModelById modelId = Some model
                         \<and> m_providerId model = p}"
proof (induction ms arbitrary: acc)
  case Nil
  show ?case by simp
next
  case (Cons m ms)
  show ?case
    by (cases "findModelById m") (auto simp: Cons.IH setAdd_set)
qed

lemma requiredProviders_set:
  "set (requiredProviders ms)
     = {p. \<exists>modelId \<in> set ms. \<exists>model. findModelById modelId = Some model \<and> m_providerId model = p}"
  by (simp add: requiredProviders_def foldl_required_set)

lemma missingKeys_set:
  "set (missingKeys apiKeys ms)
     = {p. \<not> hasKey apiKeys p \<and> (\<exists>modelId \<in> set ms. \<exists>model. findModelById modelId = Some model
                         \<and> m_providerId model = p)}"
  by (auto simp: missingKeys_def requiredProviders_set)

lemma missingKeys_Nil_iff:
  "missingKeys apiKeys ms = [] \<longleftrightarrow>
     (\<forall>modelId \<in> set ms. \<forall>model. findModelById modelId = Some model
         \<longrightarrow> hasKey apiKeys (m_providerId model))"
proof -
  have "missingKeys apiKeys ms = [] \<longleftrightarrow> set (missingKeys apiKeys ms) = {}" by simp
  also have "\<dots> \<longleftrightarrow> (\<forall>modelId \<in> set ms. \<forall>model. findModelById modelId = Some model
         \<longrightarrow> hasKey apiKeys (m_providerId model))"
    unfolding missingKeys_set by blast
  finally show ?thesis .
qed

text \<open>
  C4. \<^verbatim>\<open>start\<close> fails with \<^verbatim>\<open>AlreadyRunning\<close> when the experiment's id is in the
  runner's map. Otherwise, when a selected model that \<^verbatim>\<open>PROVIDER_DATA\<close> lists belongs to a
  provider without a credential, it fails with \<^verbatim>\<open>MissingCredentials\<close>, and the ids it
  lists are exactly the required providers whose key is absent or empty. Whenever
  \<^verbatim>\<open>start\<close> fails, the state is the one it was given: no sample is stored or recorded
  and no experiment's status is written. (When both conditions hold, the first check
  wins and the error is \<^verbatim>\<open>AlreadyRunning\<close>.)
\<close>

theorem C4_start_fails_fast:
  "(runningExperiments w (e_id e) \<noteq> None \<longrightarrow> start e apiKeys w = (Inl AlreadyRunning, w))
 \<and> (runningExperiments w (e_id e) = None
      \<and> (\<exists>modelId \<in> set (e_selectedModels e). \<exists>model. findModelById modelId = Some model
            \<and> apiKeys (m_providerId model) = None)
    \<longrightarrow> (\<exists>missing. start e apiKeys w = (Inl (MissingCredentials missing), w)
          \<and> missing \<noteq> []
          \<and> set missing = {p. \<not> hasKey apiKeys p
                \<and> (\<exists>modelId \<in> set (e_selectedModels e). \<exists>model.
                      findModelById modelId = Some model \<and> m_providerId model = p)}))
 \<and> (\<forall>err w'. start e apiKeys w = (Inl err, w') \<longrightarrow>
        w' = w \<and> savedSamples w' = savedSamples w
      \<and> savedExperiments w' = savedExperiments w
      \<and> (\<forall>a. re_samples (heap w' a) = re_samples (heap w a)
             \<and> e_status (re_experiment (heap w' a)) = e_status (re_experiment (heap w a))))"
proof (intro conjI impI allI)
  assume "runningExperiments w (e_id e) \<noteq> None"
  then show "start e apiKeys w = (Inl AlreadyRunning, w)" by (simp add: start_def)
next
  assume h: "runningExperiments w (e_id e) = None
      \<and> (\<exists>modelId \<in> set (e_selectedModels e). \<exists>model. findModelById modelId = Some model
            \<and> apiKeys (m_providerId model) = None)"
  then obtain modelId model where m: "modelId \<in> set (e_selectedModels e)"
    "findModelById modelId = Some model" "apiKeys (m_providerId model) = None"
    by blast
  then have "\<not> hasKey apiKeys (m_providerId model)" by (simp add: hasKey_def)
  with m have "missingKeys apiKeys (e_selectedModels e) \<noteq> []"
    unfolding missingKeys_Nil_iff by blast
  with h show "\<exists>missing. start e apiKeys w = (Inl (MissingCredentials missing), w)
          \<and> missing \<noteq> []
          \<and> set missing = {p. \<not> hasKey apiKeys p
                \<and> (\<exists>modelId \<in> set (e_selectedModels e). \<exists>model.
                      findModelById modelId = Some model \<and> m_providerId model = p)}"
    by (simp add: start_def Let_def missingKeys_set)
next
  fix err w' assume "start e apiKeys w = (Inl err, w')"
  then show "w' = w"
    by (auto simp: start_def Let_def split: if_splits)
  then show "savedSamples w' = savedSamples w" "savedExperiments w' = savedExperiments w"
    "\<And>a. re_samples (heap w' a) = re_samples (heap w a)"
    "\<And>a. e_status (re_experiment (heap w' a)) = e_status (re_experiment (heap w a))"
    by simp_all
qed

section \<open>Running an experiment to its end\<close>

lemma start_ok:
  assumes "start e apiKeys w = (Inr a, w1)"
  shows "heap w1 a = \<lparr>re_experiment = e\<lparr>e_status := running\<rparr>, re_aborted = False,
                       re_progress = initialProgress e, re_samples = []\<rparr>"
    and "runningExperiments w1 (e_id e) = Some a"
    and "progressUpdates w1 = progressUpdates w"
    and "calls w1 = calls w"
    and "missingKeys apiKeys (e_selectedModels e) = []"
    and "runningExperiments w (e_id e) = None"
  using assms
  by (auto simp: start_def Let_def saveExperiment_def setObject_def split: if_splits)


lemma completeExperiment_frame:
  "progressUpdates (snd (completeExperiment i w)) = progressUpdates w
 \<and> calls (snd (completeExperiment i w)) = calls w
 \<and> re_progress (heap (snd (completeExperiment i w)) a) = re_progress (heap w a)
 \<and> re_samples (heap (snd (completeExperiment i w)) a) = re_samples (heap w a)
 \<and> fixedPart (heap (snd (completeExperiment i w)) a) = fixedPart (heap w a)"
  by (auto simp: completeExperiment_def Let_def saveExperiment_def setObject_def deleteRunning_def
      saveResults_def fixedPart_def split: option.splits sum.splits)

lemma handleError_frame:
  "progressUpdates (snd (handleError i w)) = progressUpdates w
 \<and> calls (snd (handleError i w)) = calls w
 \<and> re_progress (heap (snd (handleError i w)) a) = re_progress (heap w a)
 \<and> re_samples (heap (snd (handleError i w)) a) = re_samples (heap w a)
 \<and> fixedPart (heap (snd (handleError i w)) a) = fixedPart (heap w a)"
  by (auto simp: handleError_def Let_def saveExperiment_def setObject_def deleteRunning_def
      saveResults_def fixedPart_def split: option.splits sum.splits)

lemma progresses_frame:
  assumes "progresses a S k w w'"
    and "progressUpdates w'' = progressUpdates w'"
    and "re_progress (heap w'' a) = re_progress (heap w' a)"
    and "re_samples (heap w'' a) = re_samples (heap w' a)"
    and "fixedPart (heap w'' a) = fixedPart (heap w' a)"
  shows "progresses a S k w w''"
  using assms by (simp add: progresses_def completedCalls_def)

lemma executeExperiment_progresses:
  "progresses a {m \<in> set (e_selectedModels (re_experiment (heap w a))). runnable apiKeys m}
     (length (filter (runnable apiKeys) (e_selectedModels (re_experiment (heap w a))))
        * (length (e_configs (re_experiment (heap w a)))
            * e_samplesPerConfig (re_experiment (heap w a)))) w
     (executeExperiment orc a apiKeys w)"
proof -
  define w1 where "w1 = modelsLoop orc a apiKeys (e_selectedModels (re_experiment (heap w a))) w"
  define i where "i = e_id (re_experiment (heap w1 a))"
  have p: "progresses a {m \<in> set (e_selectedModels (re_experiment (heap w a))). runnable apiKeys m}
     (length (filter (runnable apiKeys) (e_selectedModels (re_experiment (heap w a))))
        * (length (e_configs (re_experiment (heap w a)))
            * e_samplesPerConfig (re_experiment (heap w a)))) w w1"
    unfolding w1_def by (rule modelsLoop_progresses)
  show ?thesis
  proof (cases "re_aborted (heap w1 a)")
    case True
    then have "executeExperiment orc a apiKeys w = w1"
      by (simp add: executeExperiment_def Let_def w1_def)
    with p show ?thesis by simp
  next
    case False
    obtain r w2 where c: "completeExperiment i w1 = (r, w2)" by (cases "completeExperiment i w1")
    then have w2: "w2 = snd (completeExperiment i w1)" by simp
    have p2: "progresses a {m \<in> set (e_selectedModels (re_experiment (heap w a))). runnable apiKeys m}
     (length (filter (runnable apiKeys) (e_selectedModels (re_experiment (heap w a))))
        * (length (e_configs (re_experiment (heap w a)))
            * e_samplesPerConfig (re_experiment (heap w a)))) w w2"
      using completeExperiment_frame[of i w1 a] unfolding w2
      by (intro progresses_frame[OF p]) simp_all
    show ?thesis
    proof (cases r)
      case (Inl err)
      then have e: "executeExperiment orc a apiKeys w = snd (handleError i w2)"
        using False c by (simp add: executeExperiment_def Let_def w1_def i_def)
      show ?thesis unfolding e
        using handleError_frame[of i w2 a] by (intro progresses_frame[OF p2]) simp_all
    next
      case (Inr u)
      then have "executeExperiment orc a apiKeys w = w2"
        using False c by (simp add: executeExperiment_def Let_def w1_def i_def)
      with p2 show ?thesis by simp
    qed
  qed
qed

lemma executeExperiment_completes:
  fixes orc :: Oracle and apiKeys :: "string \<rightharpoonup> string" and w :: World and a :: nat
  assumes noAbort: "\<forall>n. \<not> ev_abort (orc n)" and live: "\<not> re_aborted (heap w a)"
    and reg: "runningExperiments w (e_id (re_experiment (heap w a))) = Some a"
  defines "k \<equiv> length (filter (runnable apiKeys) (e_selectedModels (re_experiment (heap w a))))
                 * (length (e_configs (re_experiment (heap w a)))
                     * e_samplesPerConfig (re_experiment (heap w a)))"
  defines "w2 \<equiv> executeExperiment orc a apiKeys w"
  defines "i \<equiv> e_id (re_experiment (heap w a))"
  shows "calls w2 = calls w + k"
    and "map s_word (re_samples (heap w2 a))
           = map s_word (re_samples (heap w a)) @ okWords orc (calls w) k"
    and "completedCalls a w2 = completedCalls a w + length (okWords orc (calls w) k)"
    and "e_status (re_experiment (heap w2 a)) = completed"
    and "map_option e_status (savedExperiments w2 i) = Some completed"
    and "\<exists>res. savedResults w2 i = Some res \<and> r_totalSamples res = length (re_samples (heap w2 a))"
    and "runningExperiments w2 i = None"
proof -
  define w1 where "w1 = modelsLoop orc a apiKeys (e_selectedModels (re_experiment (heap w a))) w"
  have adv: "advances orc a k w w1"
    unfolding w1_def k_def by (rule modelsLoop_advances[OF noAbort live])
  have live1: "\<not> re_aborted (heap w1 a)" using adv by (rule advances_not_aborted)
  have id1: "e_id (re_experiment (heap w1 a)) = i"
    using advances_fields[OF adv] by (simp add: i_def)
  have reg1: "runningExperiments w1 i = Some a"
    using adv reg by (simp add: advances_def i_def)
  from completeExperiment_saves[OF reg1 id1] obtain res where
    c: "completeExperiment i w1 =
           (Inr (), deleteRunning i (saveResults res
              (saveExperiment ((re_experiment (heap w1 a))
                  \<lparr>e_status := completed,
                   e_actualCost := Some (actualCostOf (re_samples (heap w1 a))),
                   e_progress := Some 100\<rparr>)
                (setObject a ((heap w1 a)\<lparr>re_experiment := (re_experiment (heap w1 a))
                  \<lparr>e_status := completed,
                   e_actualCost := Some (actualCostOf (re_samples (heap w1 a))),
                   e_progress := Some 100\<rparr>\<rparr>) w1))))"
    and r: "r_experimentId res = i" "r_totalSamples res = length (re_samples (heap w1 a))"
    by blast
  have w2: "w2 = deleteRunning i (saveResults res
              (saveExperiment ((re_experiment (heap w1 a))
                  \<lparr>e_status := completed,
                   e_actualCost := Some (actualCostOf (re_samples (heap w1 a))),
                   e_progress := Some 100\<rparr>)
                (setObject a ((heap w1 a)\<lparr>re_experiment := (re_experiment (heap w1 a))
                  \<lparr>e_status := completed,
                   e_actualCost := Some (actualCostOf (re_samples (heap w1 a))),
                   e_progress := Some 100\<rparr>\<rparr>) w1)))"
    using live1 c id1 by (simp add: w2_def executeExperiment_def Let_def w1_def)
  have h2: "heap w2 a = (heap w1 a)\<lparr>re_experiment := (re_experiment (heap w1 a))
                  \<lparr>e_status := completed,
                   e_actualCost := Some (actualCostOf (re_samples (heap w1 a))),
                   e_progress := Some 100\<rparr>\<rparr>"
    by (simp add: w2 deleteRunning_def saveResults_def saveExperiment_def setObject_def)
  show "calls w2 = calls w + k"
    using adv by (simp add: w2 deleteRunning_def saveResults_def saveExperiment_def setObject_def
        advances_def)
  show "map s_word (re_samples (heap w2 a))
           = map s_word (re_samples (heap w a)) @ okWords orc (calls w) k"
    using adv by (simp add: h2 advances_def)
  show "completedCalls a w2 = completedCalls a w + length (okWords orc (calls w) k)"
    using adv by (simp add: h2 advances_def completedCalls_def)
  show "e_status (re_experiment (heap w2 a)) = completed"
    by (simp add: h2)
  show "map_option e_status (savedExperiments w2 i) = Some completed"
    using id1 by (simp add: w2 deleteRunning_def saveResults_def saveExperiment_def setObject_def)
  show "\<exists>res. savedResults w2 i = Some res \<and> r_totalSamples res = length (re_samples (heap w2 a))"
    using r by (simp add: w2 h2 deleteRunning_def saveResults_def saveExperiment_def setObject_def)
  show "runningExperiments w2 i = None"
    by (simp add: w2 deleteRunning_def)
qed

text \<open>
  C7. For an experiment whose \<^verbatim>\<open>totalCalls\<close> is, as the data model defines it,
  \<open>|selectedModels| \<times> |configs| \<times> samplesPerConfig\<close>: right after \<^verbatim>\<open>start\<close>,
  \<^verbatim>\<open>getProgress\<close> shows \<open>completedCalls = 0\<close>; the progress updates the execution sends,
  whatever the providers answer and whenever an abort arrives, are ascending in
  \<^verbatim>\<open>completedCalls\<close>, and each has \<open>completedCalls \<le> totalCalls\<close>; so has the progress
  object at the end. \<^verbatim>\<open>completedCalls\<close> is written only in the statement block that sends
  the update, with no suspension point in between, so these are all the values
  \<^verbatim>\<open>getProgress\<close> can return.
\<close>

theorem C7_completedCalls_bounded_monotone:
  assumes "start e apiKeys w = (Inr a, w1)"
    and "e_totalCalls e = length (e_selectedModels e) * length (e_configs e) * e_samplesPerConfig e"
  shows "(\<exists>p. getProgress (e_id e) w1 = Some p \<and> rp_completedCalls p = 0
              \<and> rp_totalCalls p = e_totalCalls e)
       \<and> (\<exists>updates. progressUpdates (executeExperiment orc a apiKeys w1) = progressUpdates w @ updates
              \<and> sorted (map (\<lambda>u. rp_completedCalls (snd u)) updates)
              \<and> (\<forall>u \<in> set updates. fst u = e_id e
                    \<and> rp_totalCalls (snd u) = e_totalCalls e
                    \<and> rp_completedCalls (snd u) \<le> rp_totalCalls (snd u)))
       \<and> completedCalls a (executeExperiment orc a apiKeys w1) \<le> e_totalCalls e"
proof -
  note s = start_ok[OF assms(1)]
  define k where "k = length (filter (runnable apiKeys) (e_selectedModels e))
                        * (length (e_configs e) * e_samplesPerConfig e)"
  define w2 where "w2 = executeExperiment orc a apiKeys w1"
  have "length (filter (runnable apiKeys) (e_selectedModels e)) \<le> length (e_selectedModels e)"
    by simp
  then have kle: "k \<le> e_totalCalls e"
    unfolding k_def assms(2) by (simp add: mult.assoc)
  have c0: "completedCalls a w1 = 0"
    by (simp add: completedCalls_def s(1) initialProgress_def)
  have t0: "rp_totalCalls (re_progress (heap w1 a)) = e_totalCalls e"
    by (simp add: s(1) initialProgress_def)
  have i0: "e_id (re_experiment (heap w1 a)) = e_id e"
    by (simp add: s(1))
  have "progresses a {m \<in> set (e_selectedModels e). runnable apiKeys m} k w1 w2"
    using executeExperiment_progresses[of a w1 apiKeys orc]
    by (simp add: s(1) k_def w2_def)
  then obtain updates where
    cc: "completedCalls a w2 \<le> completedCalls a w1 + k"
    and u: "progressUpdates w2 = progressUpdates w1 @ updates"
           "sorted (map (\<lambda>u. rp_completedCalls (snd u)) updates)"
           "\<forall>u \<in> set updates.
                completedCalls a w1 < rp_completedCalls (snd u)
              \<and> rp_completedCalls (snd u) \<le> completedCalls a w2
              \<and> rp_totalCalls (snd u) = rp_totalCalls (re_progress (heap w1 a))
              \<and> fst u = e_id (re_experiment (heap w1 a))"
    unfolding progresses_def by blast
  have A: "\<exists>p. getProgress (e_id e) w1 = Some p \<and> rp_completedCalls p = 0
              \<and> rp_totalCalls p = e_totalCalls e"
    by (simp add: getProgress_def s(1,2) initialProgress_def)
  have C: "completedCalls a w2 \<le> e_totalCalls e"
    using cc c0 kle by linarith
  have B: "\<forall>u \<in> set updates. fst u = e_id e
                    \<and> rp_totalCalls (snd u) = e_totalCalls e
                    \<and> rp_completedCalls (snd u) \<le> rp_totalCalls (snd u)"
    using u(3) C t0 i0 by fastforce
  from A B C u(1,2) show ?thesis
    unfolding w2_def[symmetric] s(3)[symmetric] by blast
qed

lemma length_map_filter:
  "length (List.map_filter f xs) = length xs - length (filter (\<lambda>x. f x = None) xs)"
proof -
  have "length (filter (\<lambda>x. f x \<noteq> None) xs) + length (filter (\<lambda>x. \<not> f x \<noteq> None) xs) = length xs"
    by (rule sum_length_filter_compl)
  then show ?thesis by (simp add: map_filter_def)
qed

lemma length_okWords:
  "length (okWords orc c k) = k - length (filter (\<lambda>n. okWord (orc n) = None) [c ..< c + k])"
  by (simp add: okWords_def length_map_filter)

lemma all_runnable:
  assumes "missingKeys apiKeys ms = []" and "\<forall>modelId \<in> set ms. findModelById modelId \<noteq> None"
  shows "filter (runnable apiKeys) ms = ms"
proof -
  have "\<forall>m \<in> set ms. runnable apiKeys m"
    using assms unfolding missingKeys_Nil_iff runnable_def by (auto split: option.splits)
  then show ?thesis by simp
qed

text \<open>
  C5. When no abort arrives and every selected model is listed, the execution launched by
  a successful \<^verbatim>\<open>start\<close> issues all \<open>N = totalCalls\<close> planned calls, whatever fails among
  them: the recorded samples are exactly the successful calls, in order;
  \<^verbatim>\<open>completedCalls\<close> is \<open>N\<close> minus the number of failed calls (\<open>N - 1\<close> for exactly one
  failure); the status is \<^verbatim>\<open>completed\<close>; and the persisted report counts exactly the
  recorded samples.
\<close>

theorem C5_failed_call_is_skipped:
  fixes orc :: Oracle
  assumes "\<forall>n. \<not> ev_abort (orc n)"
    and "start e apiKeys w = (Inr a, w1)"
    and "\<forall>modelId \<in> set (e_selectedModels e). findModelById modelId \<noteq> None"
    and "e_totalCalls e = length (e_selectedModels e) * length (e_configs e) * e_samplesPerConfig e"
  shows "calls (executeExperiment orc a apiKeys w1) = calls w + e_totalCalls e
       \<and> map s_word (re_samples (heap (executeExperiment orc a apiKeys w1) a))
           = okWords orc (calls w) (e_totalCalls e)
       \<and> completedCalls a (executeExperiment orc a apiKeys w1)
           = e_totalCalls e
               - length (filter (\<lambda>n. okWord (orc n) = None) [calls w ..< calls w + e_totalCalls e])
       \<and> (length (filter (\<lambda>n. okWord (orc n) = None) [calls w ..< calls w + e_totalCalls e]) = 1
            \<longrightarrow> completedCalls a (executeExperiment orc a apiKeys w1) = e_totalCalls e - 1)
       \<and> e_status (re_experiment (heap (executeExperiment orc a apiKeys w1) a)) = completed
       \<and> map_option e_status (savedExperiments (executeExperiment orc a apiKeys w1) (e_id e))
           = Some completed
       \<and> (\<exists>res. savedResults (executeExperiment orc a apiKeys w1) (e_id e) = Some res
              \<and> r_totalSamples res = completedCalls a (executeExperiment orc a apiKeys w1))"
proof -
  note s = start_ok[OF assms(2)]
  define w2 where "w2 = executeExperiment orc a apiKeys w1"
  have live: "\<not> re_aborted (heap w1 a)" by (simp add: s(1))
  have reg: "runningExperiments w1 (e_id (re_experiment (heap w1 a))) = Some a"
    by (simp add: s(1,2))
  have k: "length (filter (runnable apiKeys) (e_selectedModels (re_experiment (heap w1 a))))
                 * (length (e_configs (re_experiment (heap w1 a)))
                     * e_samplesPerConfig (re_experiment (heap w1 a))) = e_totalCalls e"
    using all_runnable[OF s(5) assms(3)] by (simp add: s(1) assms(4) mult.assoc)
  note c = executeExperiment_completes[OF assms(1) live reg, of apiKeys, unfolded k,
      folded w2_def]
  have c0: "completedCalls a w1 = 0" "re_samples (heap w1 a) = []"
    "e_id (re_experiment (heap w1 a)) = e_id e"
    by (simp_all add: completedCalls_def s(1) initialProgress_def)
  have A: "calls w2 = calls w + e_totalCalls e" using c(1) by (simp add: s(4))
  have B: "map s_word (re_samples (heap w2 a)) = okWords orc (calls w) (e_totalCalls e)"
    using c(2) by (simp add: c0 s(4))
  have C: "completedCalls a w2 = e_totalCalls e
               - length (filter (\<lambda>n. okWord (orc n) = None) [calls w ..< calls w + e_totalCalls e])"
    using c(3) by (simp add: c0 s(4) length_okWords)
  have D: "e_status (re_experiment (heap w2 a)) = completed" by (rule c(4))
  have E: "map_option e_status (savedExperiments w2 (e_id e)) = Some completed"
    using c(5) by (simp add: c0)
  have "length (re_samples (heap w2 a)) = completedCalls a w2"
    using arg_cong[OF B, of length] C by (simp add: length_okWords)
  with c(6) have F: "\<exists>res. savedResults w2 (e_id e) = Some res
              \<and> r_totalSamples res = completedCalls a w2"
    by (simp add: c0)
  from A B C D E F show ?thesis unfolding w2_def by simp
qed




subsection \<open>The theorems at the example experiment\<close>

lemma findModelById_gpt4o:
  "findModelById ''gpt-4o'' = Some (mkModel ''gpt-4o'' ''openai'' ''GPT-4o'' ''4o'' (25/10000) (1/100))"
  by (simp add: findModelById_def PROVIDER_DATA_def anthropic_models_def openai_models_def
      kimi_models_def mkModel_def)


lemma start_example_pair:
  "start exampleExperiment exampleKeys emptyWorld
     = (Inr 0, snd (start exampleExperiment exampleKeys emptyWorld))"
  by (simp add: start_example)

lemma exampleOracle_noAbort: "\<forall>n. \<not> ev_abort (exampleOracle n)"
  by (simp add: exampleOracle_def)

lemma okWords_example: "okWords exampleOracle 0 3 = [''yes'', ''yes'']"
  by (simp add: okWords_def exampleOracle_def okWord_def map_filter_def upt_rec)

theorem C4_start_fails_fast_witness:
  "start exampleExperiment exampleKeys (snd (start exampleExperiment exampleKeys emptyWorld))
     = (Inl AlreadyRunning, snd (start exampleExperiment exampleKeys emptyWorld))
   \<and> (\<exists>missing. start exampleExperiment Map.empty emptyWorld
          = (Inl (MissingCredentials missing), emptyWorld) \<and> set missing = {''openai''})"
proof -
  let ?w1 = "snd (start exampleExperiment exampleKeys emptyWorld)"
  have r: "runningExperiments ?w1 (e_id exampleExperiment) \<noteq> None"
    unfolding start_example by (simp add: saveExperiment_def exampleExperiment_def)
  have A: "start exampleExperiment exampleKeys ?w1 = (Inl AlreadyRunning, ?w1)"
    using C4_start_fails_fast[of ?w1 exampleExperiment exampleKeys] r by blast
  have idle: "runningExperiments emptyWorld (e_id exampleExperiment) = None"
    by (simp add: emptyWorld_def)
  have miss: "\<exists>modelId \<in> set (e_selectedModels exampleExperiment). \<exists>model.
      findModelById modelId = Some model \<and> Map.empty (m_providerId model) = None"
    by (simp add: exampleExperiment_def findModelById_gpt4o)
  have S: "{p. \<not> hasKey Map.empty p
                \<and> (\<exists>modelId \<in> set (e_selectedModels exampleExperiment). \<exists>model.
                      findModelById modelId = Some model \<and> m_providerId model = p)} = {''openai''}"
    by (auto simp: exampleExperiment_def findModelById_gpt4o hasKey_def mkModel_def)
  from C4_start_fails_fast[of emptyWorld exampleExperiment Map.empty] idle miss
  obtain missing where "start exampleExperiment Map.empty emptyWorld
          = (Inl (MissingCredentials missing), emptyWorld)"
    "set missing = {p. \<not> hasKey Map.empty p
                \<and> (\<exists>modelId \<in> set (e_selectedModels exampleExperiment). \<exists>model.
                      findModelById modelId = Some model \<and> m_providerId model = p)}"
    by blast
  with S A show ?thesis by auto
qed

theorem C5_failed_call_is_skipped_witness:
  "calls (executeExperiment exampleOracle 0 exampleKeys
            (snd (start exampleExperiment exampleKeys emptyWorld))) = 3
   \<and> map s_word (re_samples (heap (executeExperiment exampleOracle 0 exampleKeys
            (snd (start exampleExperiment exampleKeys emptyWorld))) 0)) = [''yes'', ''yes'']
   \<and> completedCalls 0 (executeExperiment exampleOracle 0 exampleKeys
            (snd (start exampleExperiment exampleKeys emptyWorld))) = 2
   \<and> e_status (re_experiment (heap (executeExperiment exampleOracle 0 exampleKeys
            (snd (start exampleExperiment exampleKeys emptyWorld))) 0)) = completed"
proof -
  have known: "\<forall>modelId \<in> set (e_selectedModels exampleExperiment). findModelById modelId \<noteq> None"
    by (simp add: exampleExperiment_def findModelById_gpt4o)
  have total: "e_totalCalls exampleExperiment
      = length (e_selectedModels exampleExperiment) * length (e_configs exampleExperiment)
          * e_samplesPerConfig exampleExperiment"
    by (simp add: exampleExperiment_def)
  have t3: "e_totalCalls exampleExperiment = 3" "calls emptyWorld = 0"
    by (simp_all add: exampleExperiment_def emptyWorld_def)
  have one: "length (filter (\<lambda>n. okWord (exampleOracle n) = None) [0 ..< 0 + 3]) = 1"
    by (simp add: exampleOracle_def okWord_def upt_rec)
  from C5_failed_call_is_skipped[OF exampleOracle_noAbort start_example_pair known total]
  show ?thesis
    unfolding t3 using one by (simp add: okWords_example)
qed

theorem C7_completedCalls_bounded_monotone_witness:
  "(\<exists>p. getProgress ''exp-1'' (snd (start exampleExperiment exampleKeys emptyWorld)) = Some p
        \<and> rp_completedCalls p = 0 \<and> rp_totalCalls p = 3)
   \<and> sorted (map (\<lambda>u. rp_completedCalls (snd u))
        (progressUpdates (executeExperiment exampleOracle 0 exampleKeys
            (snd (start exampleExperiment exampleKeys emptyWorld)))))
   \<and> completedCalls 0 (executeExperiment exampleOracle 0 exampleKeys
            (snd (start exampleExperiment exampleKeys emptyWorld))) \<le> 3"
proof -
  have total: "e_totalCalls exampleExperiment
      = length (e_selectedModels exampleExperiment) * length (e_configs exampleExperiment)
          * e_samplesPerConfig exampleExperiment"
    by (simp add: exampleExperiment_def)
  have t3: "e_totalCalls exampleExperiment = 3" "progressUpdates emptyWorld = []"
    "e_id exampleExperiment = ''exp-1''"
    by (simp_all add: exampleExperiment_def emptyWorld_def)
  from C7_completedCalls_bounded_monotone[OF start_example_pair total, of exampleOracle]
  show ?thesis unfolding t3 by auto
qed


section \<open>Expanding the parameter sweep\<close>
















section \<open>Normalising a provider response\<close>

lemma js_dots_yes: "js ''... yes'' = [46, 46, 46, 32, 121, 101, 115]"
  by (simp add: js_def)

lemma js_yes: "js ''yes'' = [121, 101, 115]"
  by (simp add: js_def)

text \<open>What \<^verbatim>\<open>extractWord\<close> returns is what the specification's wording returns, and it
  fails exactly when nothing is left after stripping or what is left starts with white
  space.\<close>

lemma trim_decomposition:
  "\<exists>pre post. text = pre @ trim text @ post
      \<and> (\<forall>c \<in> set pre. isWhiteSpace c) \<and> (\<forall>c \<in> set post. isWhiteSpace c)"
proof -
  define u where "u = dropWhile isWhiteSpace text"
  define pre where "pre = takeWhile isWhiteSpace text"
  define post where "post = rev (takeWhile isWhiteSpace (rev u))"
  have 1: "text = pre @ u" by (simp add: pre_def u_def)
  have "rev (takeWhile isWhiteSpace (rev u) @ dropWhile isWhiteSpace (rev u)) = rev (rev u)"
    by (simp only: takeWhile_dropWhile_id)
  then have "rev (dropWhile isWhiteSpace (rev u)) @ rev (takeWhile isWhiteSpace (rev u)) = u"
    by (simp only: rev_append rev_rev_ident)
  then have 2: "u = trim text @ post"
    by (simp only: trim_def post_def u_def)
  have 3: "\<forall>c \<in> set pre. isWhiteSpace c"
    unfolding pre_def by (auto dest: set_takeWhileD)
  have 4: "\<forall>c \<in> set post. isWhiteSpace c"
    unfolding post_def by (auto dest: set_takeWhileD)
  from 1 2 3 4 show ?thesis by blast
qed

lemma removePunctuation_append:
  "removePunctuation (xs @ ys) = removePunctuation xs @ removePunctuation ys"
  by (simp add: removePunctuation_def)

lemma removePunctuation_whitespace:
  "\<forall>c \<in> set xs. isWhiteSpace c \<Longrightarrow> removePunctuation xs = xs"
  by (simp add: removePunctuation_def)

lemma takeWhile_then_whitespace:
  assumes "\<forall>c \<in> set post. isWhiteSpace c"
  shows "takeWhile (\<lambda>c. \<not> isWhiteSpace c) (xs @ post) = takeWhile (\<lambda>c. \<not> isWhiteSpace c) xs"
proof (cases "\<forall>c \<in> set xs. \<not> isWhiteSpace c")
  case True
  have p: "takeWhile (\<lambda>c. \<not> isWhiteSpace c) post = []"
    using assms by (cases post) auto
  have a: "takeWhile (\<lambda>c. \<not> isWhiteSpace c) (xs @ post)
             = xs @ takeWhile (\<lambda>c. \<not> isWhiteSpace c) post"
    using True by (simp add: takeWhile_append2)
  have b: "takeWhile (\<lambda>c. \<not> isWhiteSpace c) xs = xs"
    using True by (simp add: takeWhile_eq_all_conv)
  show ?thesis by (simp only: a b p append_Nil2)
next
  case False
  then show ?thesis by (auto simp: takeWhile_append1)
qed

lemma extractWord_refines_spec:
  assumes "extractWord text = Inr word"
  shows "extractWord_spec text = Inr word"
proof -
  define F where "F = removePunctuation (trim text)"
  from assms have tok: "firstSplit F \<noteq> []" and word: "word = toLowerCase (firstSplit F)"
    by (auto simp: extractWord_def Let_def F_def toLowerCase_def split: if_splits)
  from tok obtain c rest where F: "F = c # rest" "\<not> isWhiteSpace c"
    by (cases F) (auto simp: firstSplit_def split: if_splits)
  obtain pre post where d: "text = pre @ trim text @ post"
    "\<forall>c \<in> set pre. isWhiteSpace c" "\<forall>c \<in> set post. isWhiteSpace c"
    using trim_decomposition by blast
  have "removePunctuation text = pre @ F @ post"
    by (subst d(1)) (simp add: removePunctuation_append removePunctuation_whitespace d(2,3) F_def)
  then have "dropWhile isWhiteSpace (removePunctuation text) = F @ post"
    using d(2) F by (simp add: dropWhile_append2)
  then have "takeWhile (\<lambda>c. \<not> isWhiteSpace c) (dropWhile isWhiteSpace (removePunctuation text))
             = firstSplit F"
    using takeWhile_then_whitespace[OF d(3), of F] by (simp add: firstSplit_def)
  with tok word show ?thesis by (simp add: extractWord_spec_def Let_def)
qed

lemma extractWord_fails_iff:
  "extractWord text = Inl EmptyResponse \<longleftrightarrow>
     (case removePunctuation (trim text) of [] \<Rightarrow> True | c # rest \<Rightarrow> isWhiteSpace c)"
  by (auto simp: extractWord_def Let_def firstSplit_def toLowerCase_def split: list.splits)

text \<open>
  C2. The normalisation should return the first non-empty token left after stripping the
  punctuation. \<^verbatim>\<open>extractWord\<close> trims before it strips, so a response that starts with
  stripped punctuation followed by white space, such as \<^verbatim>\<open>... yes\<close>, becomes
  \<^verbatim>\<open> yes\<close>, whose first split is empty: the call fails with \<^verbatim>\<open>No valid word in response\<close>
  although the token \<^verbatim>\<open>yes\<close> remains. A response without such a prefix is normalised as
  specified.
\<close>

theorem C2_leading_punctuation:
  "removePunctuation (trim (js ''... yes'')) = js '' yes''
   \<and> extractWord (js ''... yes'') = Inl EmptyResponse
   \<and> extractWord_spec (js ''... yes'') = Inr (js ''yes'')
   \<and> extractWord (js ''Yes!'') = Inr (js ''yes'')"
  by (simp add: js_def extractWord_def extractWord_spec_def removePunctuation_def trim_def
      firstSplit_def toLowerCase_def isWhiteSpace_def isWordChar_def)

section \<open>The rate limiter\<close>

subsection \<open>Order\<close>















subsection \<open>Progress\<close>







subsection \<open>Timing\<close>













subsection \<open>The registry\<close>







end
